theory Spec2Isabelle
  imports Complex_Main
begin

text \<open>
  A model of the story box of \<^verbatim>\<open>src/2architecture\<close>: the session controller of
  \<^verbatim>\<open>main.py\<close> with the duration selector, and of the lighting engine the scripted timeline
  and the group-partitioned pattern of \<^verbatim>\<open>services/led_patterns.py\<close> with the loader of
  \<^verbatim>\<open>services/story_led_timeline.py\<close>. Each callback of the controller is a function from
  the controller before the call to the controller after it; what the callback reads
  from the outside (selector pins, the character service, the outcome of the story
  request) is an argument.
\<close>

section \<open>Domain: device states and the story session\<close>

text \<open>
  \<^verbatim>\<open>domain/states.py\<close>: the enumeration \<^verbatim>\<open>StoryBoxState\<close>.
\<close>

datatype StoryBoxState =
    BOOTING
  | WAITING_NETWORK
  | IDLE_READY
  | PREPARING_STORY
  | REQUESTING_STORY
  | PLAYING_STORY
  | PAUSED
  | CONFIRM_STOP

type_synonym Color = "int \<times> int \<times> int"

text \<open>
  \<^verbatim>\<open>domain/story_session.py\<close>: the dataclass \<^verbatim>\<open>StorySession\<close>; \<open>new_StorySession\<close> is
  the value built by \<^verbatim>\<open>StorySession()\<close> with every default.
\<close>

record StorySession =
  characters :: "string list"
  duration_mode :: string
  story_audio_path :: "string option"
  led_pattern :: "(string \<times> string) list option"

definition new_StorySession :: StorySession where
  "new_StorySession =
     \<lparr>characters = [], duration_mode = ''medium'', story_audio_path = None, led_pattern = None\<rparr>"

text \<open>\<^verbatim>\<open>services/api_client.py\<close>: the dataclass \<^verbatim>\<open>CharacterInfo\<close>.\<close>

record CharacterInfo =
  name :: string
  group_color :: "Color option"

text \<open>
  The character lookup of the story service. \<open>None\<close> is a controller built without an
  API client; otherwise \<^verbatim>\<open>get_character(tag_id)\<close> answers \<open>None\<close> on any failure. The
  service is taken as a function of the tag id.
\<close>

type_synonym api_client = "(int \<Rightarrow> CharacterInfo option) option"

section \<open>Hardware: the duration selector\<close>

datatype gpio_level = LOW | HIGH

text \<open>
  \<^verbatim>\<open>DurationSelector.read_mode\<close>: the two arguments are the levels returned by
  \<^verbatim>\<open>GPIO.input(sw1_pin)\<close> and \<^verbatim>\<open>GPIO.input(sw2_pin)\<close> at the moment of the call.
\<close>

fun read_mode :: "gpio_level \<times> gpio_level \<Rightarrow> string" where
  "read_mode (s1, s2) =
     (if s1 = LOW \<and> s2 = HIGH then ''short''
      else if s1 = HIGH \<and> s2 = HIGH then ''medium''
      else if s1 = HIGH \<and> s2 = LOW then ''long''
      else ''unknown'')"

section \<open>The controller\<close>

text \<open>
  Every call the controller issues to a collaborator (LED controller, system audio
  manager, audio player, worker thread) is recorded, in order, in the field \<open>calls\<close>.
\<close>

datatype call =
    Led_apply_state StoryBoxState
  | Led_trigger_event string
  | Led_set_group_color int Color
  | Led_clear_group_color int
  | Led_set_story_timeline
  | Led_clear_story_timeline
  | System_audio_play_event string string
  | Player_pause_story
  | Player_resume_story
  | Player_stop_story
  | Player_play_story string
  | Thread_start_run

record StoryBoxController =
  story_file :: string
  state :: StoryBoxState
  session :: StorySession
  pending_stop_confirm :: bool
  tag_names :: "int \<rightharpoonup> string"
  tag_colors :: "int \<rightharpoonup> Color"
  reader_active_tags :: "string \<rightharpoonup> int option"
  calls :: "call list"

text \<open>The tables fixed in \<^verbatim>\<open>StoryBoxController.__init__\<close>.\<close>

definition reader_to_group :: "(string \<times> int) list" where
  "reader_to_group = [(''reader1'', 2), (''reader2'', 3), (''reader3'', 1), (''reader4'', 0)]"

definition group_highlight_colors :: "Color list" where
  "group_highlight_colors = [(255, 120, 30), (120, 220, 120), (80, 160, 255), (200, 120, 255)]"

text \<open>
  The controller as \<^verbatim>\<open>__init__\<close> leaves it: state \<open>BOOTING\<close>, a default session, every
  reader slot present and empty, and the first \<^verbatim>\<open>apply_state\<close> call issued.
\<close>

definition init_controller :: "string \<Rightarrow> StoryBoxController" where
  "init_controller file =
     \<lparr>story_file = file,
      state = BOOTING,
      session = new_StorySession,
      pending_stop_confirm = False,
      tag_names = Map.empty,
      tag_colors = Map.empty,
      reader_active_tags = map_of (map (\<lambda>(reader_id, g). (reader_id, None)) reader_to_group),
      calls = [Led_apply_state BOOTING]\<rparr>"

definition emit :: "call \<Rightarrow> StoryBoxController \<Rightarrow> StoryBoxController" where
  "emit x c = c\<lparr>calls := calls c @ [x]\<rparr>"

definition set_state :: "StoryBoxState \<Rightarrow> StoryBoxController \<Rightarrow> StoryBoxController" where
  "set_state new_state c =
     (if new_state = state c then c
      else emit (Led_apply_state new_state) (c\<lparr>state := new_state\<rparr>))"

definition play_system_prompt :: "string \<Rightarrow> string \<Rightarrow> StoryBoxController \<Rightarrow> StoryBoxController" where
  "play_system_prompt category event_name c =
     (if state c = PLAYING_STORY then emit (System_audio_play_event ''system'' ''error'') c
      else emit (System_audio_play_event category event_name) c)"

text \<open>
  Python's \<^verbatim>\<open>str\<close> of an integer, for the fallback name \<^verbatim>\<open>f"char_{tag_id}"\<close>.
\<close>

fun str_nat :: "nat \<Rightarrow> string" where
  "str_nat n =
     (if n < 10 then [''0123456789'' ! n]
      else str_nat (n div 10) @ [''0123456789'' ! (n mod 10)])"

declare str_nat.simps [simp del]

definition str_int :: "int \<Rightarrow> string" where
  "str_int i = (if i < 0 then CHR ''-'' # str_nat (nat (- i)) else str_nat (nat i))"

definition fallback_name :: "int \<Rightarrow> string" where
  "fallback_name tag_id = ''char_'' @ str_int tag_id"

text \<open>
  \<^verbatim>\<open>dict.get(key)\<close> on the slot table: \<open>None\<close> for a missing key as for a present key
  holding \<^verbatim>\<open>None\<close>.
\<close>

definition dict_get :: "('k \<rightharpoonup> 'v option) \<Rightarrow> 'k \<Rightarrow> 'v option" where
  "dict_get d k = (case d k of None \<Rightarrow> None | Some v \<Rightarrow> v)"

text \<open>
  \<^verbatim>\<open>_character_name\<close>: the cached name, else the service's answer (cached together with
  its colour when it has one), else the fallback name. It returns the name and the
  controller with its caches updated.
\<close>

definition character_name ::
  "api_client \<Rightarrow> int \<Rightarrow> StoryBoxController \<Rightarrow> string \<times> StoryBoxController" where
  "character_name api tag_id c =
     (case tag_names c tag_id of
        Some cached \<Rightarrow> (cached, c)
      | None \<Rightarrow>
          (case api of
             None \<Rightarrow> (fallback_name tag_id, c)
           | Some get_character \<Rightarrow>
               (case get_character tag_id of
                  Some info \<Rightarrow>
                    (name info,
                     c\<lparr>tag_names := (tag_names c)(tag_id \<mapsto> name info),
                       tag_colors :=
                         (case group_color info of
                            Some col \<Rightarrow> (tag_colors c)(tag_id \<mapsto> col)
                          | None \<Rightarrow> tag_colors c)\<rparr>)
                | None \<Rightarrow> (fallback_name tag_id, c))))"

text \<open>
  The loop of \<^verbatim>\<open>_update_preparing_feedback\<close> over the readers in group order; the
  accumulator is \<^verbatim>\<open>active_characters\<close>.
\<close>

fun feedback_loop ::
  "api_client \<Rightarrow> (string \<times> int) list \<Rightarrow> string list \<Rightarrow> StoryBoxController
     \<Rightarrow> string list \<times> StoryBoxController" where
  "feedback_loop api [] active_characters c = (active_characters, c)"
| "feedback_loop api ((reader_id, group_index) # rest) active_characters c =
     (case dict_get (reader_active_tags c) reader_id of
        Some tag_id \<Rightarrow>
          (let color =
                 (case tag_colors c tag_id of
                    Some col \<Rightarrow> col
                  | None \<Rightarrow>
                      group_highlight_colors !
                        nat (group_index mod int (length group_highlight_colors)));
               c1 = emit (Led_set_group_color group_index color) c;
               (nm, c2) = character_name api tag_id c1
           in feedback_loop api rest (active_characters @ [nm]) c2)
      | None \<Rightarrow>
          feedback_loop api rest active_characters (emit (Led_clear_group_color group_index) c))"

definition ordered_groups :: "(string \<times> int) list" where
  "ordered_groups = sort_key snd reader_to_group"

definition update_preparing_feedback :: "api_client \<Rightarrow> StoryBoxController \<Rightarrow> StoryBoxController" where
  "update_preparing_feedback api c =
     (if state c \<noteq> PREPARING_STORY then c
      else
        (let (active_characters, c1) = feedback_loop api ordered_groups [] c
         in c1\<lparr>session := (session c1)\<lparr>characters := active_characters\<rparr>\<rparr>))"

text \<open>
  \<^verbatim>\<open>start_preparing\<close>. The selector is attached (as \<^verbatim>\<open>main\<close> does before any thread
  starts); \<open>pins\<close> are the two levels its \<^verbatim>\<open>read_mode\<close> sees during this call.
\<close>

definition start_preparing ::
  "api_client \<Rightarrow> gpio_level \<times> gpio_level \<Rightarrow> StoryBoxController \<Rightarrow> StoryBoxController" where
  "start_preparing api pins c =
     (let c1 = set_state PREPARING_STORY c;
          c2 = c1\<lparr>session := (session c1)\<lparr>duration_mode := read_mode pins\<rparr>\<rparr>;
          c3 = play_system_prompt ''system'' ''preparing_story'' c2
      in update_preparing_feedback api c3)"

definition on_network_ready ::
  "api_client \<Rightarrow> gpio_level \<times> gpio_level \<Rightarrow> StoryBoxController \<Rightarrow> StoryBoxController" where
  "on_network_ready api pins c =
     (let c1 = (if state c = WAITING_NETWORK
                then emit (Led_trigger_event ''internet_connected'')
                       (play_system_prompt ''system'' ''internet_connected'' c)
                else c)
      in if state c1 = BOOTING \<or> state c1 = WAITING_NETWORK
         then start_preparing api pins (set_state IDLE_READY c1)
         else c1)"

definition notify_no_internet :: "StoryBoxController \<Rightarrow> StoryBoxController" where
  "notify_no_internet c =
     play_system_prompt ''system'' ''no_internet'' (set_state WAITING_NETWORK c)"

definition on_tag_detected ::
  "api_client \<Rightarrow> string \<Rightarrow> int \<Rightarrow> StoryBoxController \<Rightarrow> StoryBoxController" where
  "on_tag_detected api reader_id tag_id c =
     (if reader_active_tags c reader_id = None then c
      else
        (let previous = dict_get (reader_active_tags c) reader_id;
             c1 = c\<lparr>reader_active_tags := (reader_active_tags c)(reader_id \<mapsto> Some tag_id)\<rparr>
         in if state c1 \<noteq> PREPARING_STORY then c1
            else
              (let (nm, c2) = character_name api tag_id c1;
                   c3 = (if previous \<noteq> Some tag_id
                         then play_system_prompt ''characters'' nm c2 else c2)
               in update_preparing_feedback api c3)))"

definition on_tag_removed :: "api_client \<Rightarrow> string \<Rightarrow> StoryBoxController \<Rightarrow> StoryBoxController" where
  "on_tag_removed api reader_id c =
     (if reader_active_tags c reader_id = None then c
      else
        (case dict_get (reader_active_tags c) reader_id of
           None \<Rightarrow> c
         | Some tag_id \<Rightarrow>
             (let c1 = c\<lparr>reader_active_tags := (reader_active_tags c)(reader_id \<mapsto> None)\<rparr>
              in if state c1 \<noteq> PREPARING_STORY then c1
                 else update_preparing_feedback api
                        (play_system_prompt ''system'' ''tag_removed'' c1))))"

definition on_duration_change :: "string \<Rightarrow> StoryBoxController \<Rightarrow> StoryBoxController" where
  "on_duration_change mode c =
     play_system_prompt ''system'' mode
       (c\<lparr>session := (session c)\<lparr>duration_mode := mode\<rparr>\<rparr>)"

text \<open>
  \<^verbatim>\<open>request_story\<close>, up to the start of its worker thread (\<open>Thread_start_run\<close>); the
  worker's body runs later, on its own thread.
\<close>

definition request_story :: "StoryBoxController \<Rightarrow> StoryBoxController" where
  "request_story c =
     (if state c \<noteq> PREPARING_STORY then c
      else if characters (session c) = [] then play_system_prompt ''system'' ''no_characters'' c
      else emit Thread_start_run (set_state REQUESTING_STORY c))"

text \<open>
  \<^verbatim>\<open>start_story\<close>. \<open>timeline_loaded\<close> tells whether \<^verbatim>\<open>load_story_led_timeline\<close> found a
  usable timeline beside the audio file.
\<close>

definition start_story :: "bool \<Rightarrow> StoryBoxController \<Rightarrow> StoryBoxController" where
  "start_story timeline_loaded c =
     (case story_audio_path (session c) of
        None \<Rightarrow> c
      | Some path \<Rightarrow>
          if path = [] then c
          else
            (let c1 = emit (if timeline_loaded then Led_set_story_timeline
                            else Led_clear_story_timeline) c;
                 c2 = set_state PLAYING_STORY c1;
                 c3 = c2\<lparr>pending_stop_confirm := False\<rparr>
             in emit (Player_play_story path) c3))"

text \<open>
  The body of the worker thread of \<^verbatim>\<open>request_story\<close>. \<open>generated\<close> is the path returned by
  \<^verbatim>\<open>generate_story\<close> (\<open>None\<close> on failure, or with no API client).
\<close>

definition request_story_run ::
  "api_client \<Rightarrow> string option \<Rightarrow> bool \<Rightarrow> StoryBoxController \<Rightarrow> StoryBoxController" where
  "request_story_run api generated timeline_loaded c =
     (let c1 = play_system_prompt ''system'' ''story_waiting'' c
      in case generated of
           None \<Rightarrow>
             (if story_file c1 \<noteq> [] then
                (let c2 = play_system_prompt ''system'' ''story_start'' c1;
                     c3 = c2\<lparr>session := (session c2)\<lparr>story_audio_path := Some (story_file c2)\<rparr>\<rparr>
                 in start_story timeline_loaded c3)
              else
                update_preparing_feedback api
                  (set_state PREPARING_STORY (play_system_prompt ''system'' ''error'' c1)))
         | Some story_path \<Rightarrow>
             (let c2 = play_system_prompt ''system'' ''story_start'' c1;
                  c3 = c2\<lparr>session := (session c2)\<lparr>story_audio_path := Some story_path\<rparr>\<rparr>
              in start_story timeline_loaded c3))"

definition pause_story :: "StoryBoxController \<Rightarrow> StoryBoxController" where
  "pause_story c =
     (if state c \<noteq> PLAYING_STORY then c
      else emit Player_pause_story (set_state PAUSED c))"

definition resume_story :: "StoryBoxController \<Rightarrow> StoryBoxController" where
  "resume_story c =
     (if state c \<noteq> PAUSED \<and> state c \<noteq> CONFIRM_STOP then c
      else emit Player_resume_story
             (set_state PLAYING_STORY (c\<lparr>pending_stop_confirm := False\<rparr>)))"

text \<open>
  \<^verbatim>\<open>stop_story_and_reset\<close> and \<^verbatim>\<open>on_story_finished\<close>. Each reads the selector twice: once
  itself (\<open>pins1\<close>) and once inside \<^verbatim>\<open>start_preparing\<close> (\<open>pins2\<close>).
\<close>

definition stop_story_and_reset ::
  "api_client \<Rightarrow> gpio_level \<times> gpio_level \<Rightarrow> gpio_level \<times> gpio_level
     \<Rightarrow> StoryBoxController \<Rightarrow> StoryBoxController" where
  "stop_story_and_reset api pins1 pins2 c =
     (let c1 = emit Led_clear_story_timeline (emit Player_stop_story c);
          c2 = c1\<lparr>session := new_StorySession\<rparr>;
          c3 = c2\<lparr>session := (session c2)\<lparr>duration_mode := read_mode pins1\<rparr>\<rparr>;
          c4 = c3\<lparr>pending_stop_confirm := False\<rparr>;
          c5 = set_state IDLE_READY c4
      in start_preparing api pins2 c5)"

definition on_story_finished ::
  "api_client \<Rightarrow> gpio_level \<times> gpio_level \<Rightarrow> gpio_level \<times> gpio_level
     \<Rightarrow> StoryBoxController \<Rightarrow> StoryBoxController" where
  "on_story_finished api pins1 pins2 c =
     (let c1 = emit Led_clear_story_timeline c;
          c2 = c1\<lparr>session := new_StorySession\<rparr>;
          c3 = c2\<lparr>session := (session c2)\<lparr>duration_mode := read_mode pins1\<rparr>\<rparr>;
          c4 = c3\<lparr>pending_stop_confirm := False\<rparr>;
          c5 = set_state IDLE_READY c4
      in start_preparing api pins2 c5)"

definition on_rotary_click :: "StoryBoxController \<Rightarrow> StoryBoxController" where
  "on_rotary_click c =
     (let c1 = emit (Led_trigger_event ''play_button_press'') c
      in if state c1 = PREPARING_STORY then request_story c1
         else if state c1 = PLAYING_STORY then pause_story c1
         else if state c1 = PAUSED \<or> state c1 = CONFIRM_STOP then resume_story c1
         else c1)"

definition on_stop_button ::
  "api_client \<Rightarrow> gpio_level \<times> gpio_level \<Rightarrow> gpio_level \<times> gpio_level
     \<Rightarrow> StoryBoxController \<Rightarrow> StoryBoxController" where
  "on_stop_button api pins1 pins2 c =
     (let c1 = emit (Led_trigger_event ''stop_button_press'') c
      in if state c1 = PLAYING_STORY \<or> state c1 = PAUSED then
           (if \<not> pending_stop_confirm c1 then
              play_system_prompt ''system'' ''stop_story''
                (set_state CONFIRM_STOP (pause_story (c1\<lparr>pending_stop_confirm := True\<rparr>)))
            else stop_story_and_reset api pins1 pins2 c1)
         else if state c1 = CONFIRM_STOP then stop_story_and_reset api pins1 pins2 c1
         else play_system_prompt ''system'' ''stop_button_explain'' c1)"

text \<open>
  The polling loop of \<^verbatim>\<open>DurationSelector.start\<close>: its first notification, and one
  iteration of the loop, on the thread's \<^verbatim>\<open>last_mode\<close> and the controller.
\<close>

definition selector_first ::
  "gpio_level \<times> gpio_level \<Rightarrow> StoryBoxController \<Rightarrow> string \<times> StoryBoxController" where
  "selector_first pins c =
     (let last_mode = read_mode pins
      in if last_mode \<noteq> ''unknown'' then (last_mode, on_duration_change last_mode c)
         else (last_mode, c))"

definition selector_poll ::
  "gpio_level \<times> gpio_level \<Rightarrow> string \<times> StoryBoxController \<Rightarrow> string \<times> StoryBoxController" where
  "selector_poll pins lc =
     (let last_mode = fst lc; c = snd lc; mode = read_mode pins
      in if mode \<noteq> last_mode \<and> mode \<noteq> ''unknown'' then (mode, on_duration_change mode c)
         else (last_mode, c))"


subsection \<open>A run of the device, used for concrete instances\<close>

text \<open>
  The device boots with the default story file of \<^verbatim>\<open>main\<close> and no API client, the network
  comes up with the selector on medium, a figurine with tag 7 is put on reader 4, the
  rotary is clicked, the worker thread falls back to the default story, and the stop
  button is pressed once.
\<close>

definition ex_boot :: StoryBoxController where
  "ex_boot = init_controller ''epic.mp3''"

definition ex_preparing :: StoryBoxController where
  "ex_preparing = on_network_ready None (HIGH, HIGH) ex_boot"

definition ex_one_tag :: StoryBoxController where
  "ex_one_tag = on_tag_detected None ''reader4'' 7 ex_preparing"

definition ex_requesting :: StoryBoxController where
  "ex_requesting = on_rotary_click ex_one_tag"

definition ex_playing :: StoryBoxController where
  "ex_playing = request_story_run None None False ex_requesting"

definition ex_confirm_stop :: StoryBoxController where
  "ex_confirm_stop = on_stop_button None (HIGH, HIGH) (HIGH, HIGH) ex_playing"

section \<open>Notions used to state the controller's properties\<close>

text \<open>
  The name \<^verbatim>\<open>_character_name(tag_id)\<close> returns when the name cache is \<open>names\<close>.
\<close>

definition resolve_name :: "api_client \<Rightarrow> (int \<rightharpoonup> string) \<Rightarrow> int \<Rightarrow> string" where
  "resolve_name api names tag_id =
     (case names tag_id of
        Some cached \<Rightarrow> cached
      | None \<Rightarrow>
          (case api of
             None \<Rightarrow> fallback_name tag_id
           | Some get_character \<Rightarrow>
               (case get_character tag_id of
                  Some info \<Rightarrow> name info
                | None \<Rightarrow> fallback_name tag_id)))"

text \<open>
  The tags currently held, listed along a list of (reader, group) pairs: with
  \<open>ordered_groups\<close> this is the held tags by ascending group index.
\<close>

definition held_tags :: "(string \<times> int) list \<Rightarrow> (string \<rightharpoonup> int option) \<Rightarrow> int list" where
  "held_tags groups slots =
     List.map_filter (\<lambda>(reader_id, group_index). dict_get slots reader_id) groups"

fun is_group_call :: "call \<Rightarrow> bool" where
  "is_group_call (Led_set_group_color g col) = True"
| "is_group_call (Led_clear_group_color g) = True"
| "is_group_call other = False"

text \<open>The events of the RFID manager, and a run of the controller over a sequence of them.\<close>

datatype tag_event = Tag_detected string int | Tag_removed string

fun handle_tag_event :: "api_client \<Rightarrow> tag_event \<Rightarrow> StoryBoxController \<Rightarrow> StoryBoxController" where
  "handle_tag_event api (Tag_detected reader_id tag_id) c = on_tag_detected api reader_id tag_id c"
| "handle_tag_event api (Tag_removed reader_id) c = on_tag_removed api reader_id c"

definition run_tag_events ::
  "api_client \<Rightarrow> tag_event list \<Rightarrow> StoryBoxController \<Rightarrow> StoryBoxController" where
  "run_tag_events api evs c = fold (handle_tag_event api) evs c"

text \<open>
  What an event does to the slot table alone: a known reader's slot takes the detected
  tag, or is emptied; an unknown reader changes nothing.
\<close>

fun slot_after :: "tag_event \<Rightarrow> (string \<rightharpoonup> int option) \<Rightarrow> (string \<rightharpoonup> int option)" where
  "slot_after (Tag_detected reader_id tag_id) slots =
     (if slots reader_id = None then slots else slots(reader_id \<mapsto> Some tag_id))"
| "slot_after (Tag_removed reader_id) slots =
     (if slots reader_id = None then slots else slots(reader_id \<mapsto> None))"

text \<open>
  The invariant of \<open>PREPARING_STORY\<close>: the session's character list is the names of the
  held tags in group order, and the name cache still resolves every tag as \<open>names0\<close> did.
\<close>

definition tags_inv :: "api_client \<Rightarrow> (int \<rightharpoonup> string) \<Rightarrow> StoryBoxController \<Rightarrow> bool" where
  "tags_inv api names0 c \<longleftrightarrow>
     state c = PREPARING_STORY \<and>
     characters (session c) =
       map (resolve_name api names0) (held_tags ordered_groups (reader_active_tags c)) \<and>
     (\<forall>u. resolve_name api (tag_names c) u = resolve_name api names0 u)"

text \<open>
  The common postcondition of \<^verbatim>\<open>stop_story_and_reset\<close> and \<^verbatim>\<open>on_story_finished\<close>, from the
  controller \<open>c\<close> before to the controller \<open>c'\<close> after; \<open>first_calls\<close> are the calls the
  handler issues before it resets the session. The handler reaches the controller
  \<open>reset_midpoint\<close>: state \<open>IDLE_READY\<close>, announced to the LED controller unless it was
  the state already, a fresh session but for the duration just read, no stop pending.
  It then runs \<^verbatim>\<open>start_preparing\<close> on it. So at the end the state is \<open>PREPARING_STORY\<close>,
  announced after \<open>IDLE_READY\<close>, the preparing prompt is played, and only group colour
  calls follow; no audio path is set, the duration is the latest reading, and the
  character list is the names of the tags still held, by group.
\<close>

definition reset_midpoint ::
  "gpio_level \<times> gpio_level \<Rightarrow> call list \<Rightarrow> StoryBoxController \<Rightarrow> StoryBoxController" where
  "reset_midpoint pins1 first_calls c =
     c\<lparr>state := IDLE_READY,
       session := new_StorySession\<lparr>duration_mode := read_mode pins1\<rparr>,
       pending_stop_confirm := False,
       calls := calls c @ first_calls @
                  (if state c = IDLE_READY then [] else [Led_apply_state IDLE_READY])\<rparr>"

definition reset_postcondition ::
  "api_client \<Rightarrow> gpio_level \<times> gpio_level \<Rightarrow> gpio_level \<times> gpio_level \<Rightarrow> call list
     \<Rightarrow> StoryBoxController \<Rightarrow> StoryBoxController \<Rightarrow> bool" where
  "reset_postcondition api pins1 pins2 first_calls c c' \<longleftrightarrow>
     c' = start_preparing api pins2 (reset_midpoint pins1 first_calls c) \<and>
     state c' = PREPARING_STORY \<and>
     pending_stop_confirm c' = False \<and>
     reader_active_tags c' = reader_active_tags c \<and>
     story_audio_path (session c') = None \<and>
     led_pattern (session c') = None \<and>
     duration_mode (session c') = read_mode pins2 \<and>
     characters (session c') =
       map (resolve_name api (tag_names c)) (held_tags ordered_groups (reader_active_tags c)) \<and>
     (\<exists>xs. calls c' =
             calls c @ first_calls @
             (if state c = IDLE_READY then [] else [Led_apply_state IDLE_READY]) @
             [Led_apply_state PREPARING_STORY,
              System_audio_play_event ''system'' ''preparing_story''] @ xs \<and>
           list_all is_group_call xs)"

section \<open>Floating-point numbers\<close>

text \<open>
  Times, intensities and scale factors are Python floats in the source. A (finite) float
  is modelled as the real number it denotes, so that comparisons, \<^verbatim>\<open>max\<close> and \<^verbatim>\<open>min\<close> are
  exact. Addition, subtraction, multiplication and division of floats round their
  result: in the timeline they are arguments of the model, the fields of \<open>float_ops\<close>, and
  nothing is assumed of them. \<open>exact_ops\<close> is the arithmetic of the reals, with which
  floating-point arithmetic agrees wherever the exact result is itself a float, as it
  is for sums, differences and products of small integers and halves.
\<close>

record float_ops =
  fadd :: "real \<Rightarrow> real \<Rightarrow> real"
  fsub :: "real \<Rightarrow> real \<Rightarrow> real"
  fmul :: "real \<Rightarrow> real \<Rightarrow> real"
  fdiv :: "real \<Rightarrow> real \<Rightarrow> real"

definition exact_ops :: float_ops where
  "exact_ops = \<lparr>fadd = (+), fsub = (-), fmul = (*), fdiv = (/)\<rparr>"

text \<open>
  Python's \<^verbatim>\<open>round\<close> to an integer: to the nearest, a tie to the even neighbour.
\<close>

definition py_round :: "real \<Rightarrow> int" where
  "py_round x =
     (let f = \<lfloor>x\<rfloor>; d = x - of_int f
      in if d < 1 / 2 then f
         else if 1 / 2 < d then f + 1
         else if even f then f else f + 1)"

text \<open>\<^verbatim>\<open>_clamp\<close> and \<^verbatim>\<open>_scale\<close> of \<^verbatim>\<open>services/led_patterns.py\<close>.\<close>

definition clamp :: "real \<Rightarrow> int" where
  "clamp v = max 0 (min 255 (py_round v))"

fun scale_color :: "float_ops \<Rightarrow> Color \<Rightarrow> real \<Rightarrow> Color" where
  "scale_color ops (r, g, b) factor =
     (clamp (fmul ops (of_int r) factor),
      clamp (fmul ops (of_int g) factor),
      clamp (fmul ops (of_int b) factor))"

section \<open>The scripted LED timeline\<close>

text \<open>Pattern parameters are a dictionary from names to values of any type \<open>'v\<close>.\<close>

type_synonym 'v params = "(string \<times> 'v) list"

text \<open>\<^verbatim>\<open>services/story_led_timeline.py\<close>: the dataclasses (the field \<^verbatim>\<open>end\<close> is \<open>end_value\<close>).\<close>

record 'v StoryLedSegment =
  start :: real
  pattern_id :: string
  duration :: "real option"
  params :: "'v params"
  end_value :: "real option"

record 'v StoryLedTimeline =
  segments :: "'v StoryLedSegment list"
  fallback_pattern_id :: "string option"
  fallback_params :: "'v params"

text \<open>The constructor with its \<^verbatim>\<open>__post_init__\<close>: the segments are sorted by start (stably).\<close>

definition new_StoryLedTimeline ::
  "'v StoryLedSegment list \<Rightarrow> string option \<Rightarrow> 'v params \<Rightarrow> 'v StoryLedTimeline" where
  "new_StoryLedTimeline segs fallback_id fallback_ps =
     \<lparr>segments = sort_key start segs,
      fallback_pattern_id = fallback_id,
      fallback_params = fallback_ps\<rparr>"

text \<open>
  An entry of the \<^verbatim>\<open>audio_led_sync\<close> array as the loader reads it. \<open>pattern\<close> is \<open>None\<close>
  when the key is missing (or the entry is not an object); \<open>start_time\<close> is the float
  \<^verbatim>\<open>float\<close> makes of the value, \<open>None\<close> when the key is missing or \<^verbatim>\<open>float\<close> rejects the
  value; \<open>end_time\<close> likewise; \<open>color\<close> is the result of \<^verbatim>\<open>_parse_color\<close>; \<open>extra\<close> holds the
  other keys.
\<close>

record 'v timeline_entry =
  pattern :: "string option"
  start_time :: "real option"
  end_time :: "real option"
  color :: "Color option"
  extra :: "'v params"

text \<open>
  The body of the loader's loop for one entry: \<open>None\<close> where the source skips the entry
  (\<^verbatim>\<open>continue\<close>). \<open>translate\<close> stands for \<^verbatim>\<open>_translate_pattern\<close>.
\<close>

definition entry_segment ::
  "float_ops \<Rightarrow> (string \<Rightarrow> Color option \<Rightarrow> real option \<Rightarrow> 'v params \<Rightarrow> string \<times> 'w params)
     \<Rightarrow> 'v timeline_entry \<Rightarrow> 'w StoryLedSegment option" where
  "entry_segment ops translate entry =
     (case pattern entry of
        None \<Rightarrow> None
      | Some pattern_name \<Rightarrow>
          (case start_time entry of
             None \<Rightarrow> None
           | Some st \<Rightarrow>
               (let start_value = max 0 st;
                    end_val = (case end_time entry of None \<Rightarrow> None | Some e \<Rightarrow> Some (max 0 e));
                    duration_value =
                      (case end_val of
                         None \<Rightarrow> None
                       | Some e \<Rightarrow> Some (max 0 (fsub ops e start_value)));
                    (pid, ps) = translate pattern_name (color entry) duration_value (extra entry)
                in Some \<lparr>start = start_value, pattern_id = pid, duration = duration_value,
                         params = ps, end_value = end_val\<rparr>)))"

text \<open>
  \<^verbatim>\<open>load_story_led_timeline\<close>. The document is \<open>None\<close> when the file is missing or
  unreadable, is not JSON, or has no \<^verbatim>\<open>audio_led_sync\<close> array.
\<close>

definition load_story_led_timeline ::
  "float_ops \<Rightarrow> (string \<Rightarrow> Color option \<Rightarrow> real option \<Rightarrow> 'v params \<Rightarrow> string \<times> 'w params)
     \<Rightarrow> 'v timeline_entry list option \<Rightarrow> 'w StoryLedTimeline option" where
  "load_story_led_timeline ops translate doc =
     (case doc of
        None \<Rightarrow> None
      | Some timeline_entries \<Rightarrow>
          (let segs = List.map_filter (entry_segment ops translate) timeline_entries
           in if segs = [] then None else Some (new_StoryLedTimeline segs None [])))"

subsection \<open>Parameter values, the flash translation and the flash pattern\<close>

text \<open>
  The values of the parameter dictionaries: \<open>Num x\<close> is a value that \<^verbatim>\<open>float\<close> turns into
  \<open>x\<close>, \<open>Ints\<close> a list or tuple of integers, \<open>Lists\<close> a list of such lists (a palette), and
  \<open>Text\<close> a string that \<^verbatim>\<open>float\<close> rejects.
\<close>

datatype pvalue = Num real | Ints "int list" | Lists "int list list" | Text string

definition dict_lookup :: "'v params \<Rightarrow> string \<Rightarrow> 'v option" where
  "dict_lookup d k = map_of d k"

text \<open>Python's truth value of a parameter value.\<close>

fun truthy :: "pvalue \<Rightarrow> bool" where
  "truthy (Num x) = (x \<noteq> 0)"
| "truthy (Ints xs) = (xs \<noteq> [])"
| "truthy (Lists xs) = (xs \<noteq> [])"
| "truthy (Text s) = (s \<noteq> [])"

text \<open>\<^verbatim>\<open>_safe_float(value, default)\<close> on the result of \<^verbatim>\<open>dict.get\<close>.\<close>

fun safe_float :: "pvalue option \<Rightarrow> real \<Rightarrow> real" where
  "safe_float (Some (Num x)) default_value = x"
| "safe_float other default_value = default_value"

text \<open>\<^verbatim>\<open>_translate_flashing\<close>.\<close>

definition translate_flashing ::
  "Color option \<Rightarrow> real option \<Rightarrow> pvalue params \<Rightarrow> string \<times> pvalue params" where
  "translate_flashing col dur ex =
     (let base_duration =
            (case dur of
               None \<Rightarrow> safe_float (dict_lookup ex ''duration'') (1 / 2)
             | Some d \<Rightarrow> if d \<noteq> 0 \<and> 0 < d then d
                         else safe_float (dict_lookup ex ''duration'') (1 / 2));
          (r, g, b) = (case col of None \<Rightarrow> (255, 255, 255) | Some c \<Rightarrow> c)
      in (''flash'',
          [(''color'', Ints [r, g, b]),
           (''duration'', Num (safe_float (Some (Num base_duration)) (1 / 2)))]))"

text \<open>\<^verbatim>\<open>str.lower\<close> on the letters A to Z.\<close>

definition lower_char :: "char \<Rightarrow> char" where
  "lower_char ch =
     (case map_of (zip ''ABCDEFGHIJKLMNOPQRSTUVWXYZ'' ''abcdefghijklmnopqrstuvwxyz'') ch of
        None \<Rightarrow> ch
      | Some l \<Rightarrow> l)"

text \<open>
  \<^verbatim>\<open>_translate_pattern\<close>: the names \<^verbatim>\<open>flash\<close> and \<^verbatim>\<open>flashing\<close> of the table go to
  \<^verbatim>\<open>_translate_flashing\<close>; \<open>others\<close> stands for the translation of every other name (the
  comet and pulse translators, and the default for an unknown name).
\<close>

definition translate_pattern ::
  "(string \<Rightarrow> Color option \<Rightarrow> real option \<Rightarrow> pvalue params \<Rightarrow> string \<times> pvalue params)
     \<Rightarrow> string \<Rightarrow> Color option \<Rightarrow> real option \<Rightarrow> pvalue params \<Rightarrow> string \<times> pvalue params" where
  "translate_pattern others pattern_name col dur ex =
     (if map lower_char pattern_name = ''flash'' \<or> map lower_char pattern_name = ''flashing''
      then translate_flashing col dur ex
      else others pattern_name col dur ex)"

text \<open>
  A pattern is modelled by its \<^verbatim>\<open>_render_frame\<close>, from the elapsed time and the pixel
  count to the colours: the comet, the pulse and the flash, the patterns the translators
  of a timeline name, compute their frame from these two alone. \<^verbatim>\<open>render_for_elapsed\<close>
  is the method of the base class \<^verbatim>\<open>LedPattern\<close>, after \<^verbatim>\<open>reset(pixel_count)\<close>.
\<close>

type_synonym led_pattern = "real \<Rightarrow> int \<Rightarrow> Color list"

definition render_for_elapsed :: "led_pattern \<Rightarrow> int \<Rightarrow> real \<Rightarrow> Color list" where
  "render_for_elapsed pat pc elapsed = (if pc \<le> 0 then [] else pat (max 0 elapsed) pc)"

text \<open>\<^verbatim>\<open>FlashPattern._render_frame\<close>, for a pattern built with the given colour and duration.\<close>

definition FlashPattern :: "float_ops \<Rightarrow> Color \<Rightarrow> real \<Rightarrow> led_pattern" where
  "FlashPattern ops col dur elapsed pc =
     (let intensity =
            (if dur \<le> 0 then 0
             else (let progress = min 1 (fdiv ops elapsed dur)
                   in max 0 (fsub ops 1 progress)))
      in replicate (nat pc) (scale_color ops col intensity))"

text \<open>\<^verbatim>\<open>_normalize_color\<close> on a tuple of integers.\<close>

definition normalize_color :: "int list \<Rightarrow> Color" where
  "normalize_color comps =
     (let c = take 3 comps @ replicate (3 - length (take 3 comps)) 0
      in (clamp (of_int (c ! 0)), clamp (of_int (c ! 1)), clamp (of_int (c ! 2))))"

text \<open>
  \<^verbatim>\<open>_build_flash\<close>: \<open>None\<close> where the source raises (a colour that is not a sequence of
  integers, a duration that \<^verbatim>\<open>float\<close> rejects).
\<close>

definition build_flash :: "float_ops \<Rightarrow> pvalue params \<Rightarrow> led_pattern option" where
  "build_flash ops ps =
     (let chosen =
            (case dict_lookup ps ''color'' of
               Some v \<Rightarrow> if truthy v then Some v else
                  (case dict_lookup ps ''colors'' of
                     Some w \<Rightarrow> if truthy w then Some w else None
                   | None \<Rightarrow> None)
             | None \<Rightarrow>
                  (case dict_lookup ps ''colors'' of
                     Some w \<Rightarrow> if truthy w then Some w else None
                   | None \<Rightarrow> None));
          dur = (case dict_lookup ps ''duration'' of
                   None \<Rightarrow> Some (35 / 100)
                 | Some (Num x) \<Rightarrow> Some x
                 | Some other \<Rightarrow> None)
      in case dur of
           None \<Rightarrow> None
         | Some d \<Rightarrow>
             (case chosen of
                None \<Rightarrow> Some (FlashPattern ops (normalize_color [255, 255, 255]) d)
              | Some (Ints comps) \<Rightarrow> Some (FlashPattern ops (normalize_color comps) d)
              | Some other \<Rightarrow> None))"

text \<open>
  \<^verbatim>\<open>create_pattern\<close>: the flash builders of \<^verbatim>\<open>_PATTERN_BUILDERS\<close> (the presets put their
  defaults under the given parameters); \<open>other_builders\<close> stands for the builders of the
  comet, pulse and group patterns; any other pattern id raises (\<open>None\<close>).
\<close>

definition create_pattern ::
  "float_ops \<Rightarrow> (string \<Rightarrow> pvalue params \<Rightarrow> led_pattern option)
     \<Rightarrow> string \<Rightarrow> pvalue params \<Rightarrow> led_pattern option" where
  "create_pattern ops other_builders pid ps =
     (if pid = ''flash'' then build_flash ops ps
      else if pid = ''flash_play_button''
        then build_flash ops (ps @ [(''color'', Ints [80, 160, 255]), (''duration'', Num 1)])
      else if pid = ''flash_stop_button''
        then build_flash ops (ps @ [(''color'', Ints [255, 0, 0]), (''duration'', Num 1)])
      else if pid = ''flash_internet_connected''
        then build_flash ops (ps @ [(''color'', Ints [0, 255, 0]), (''duration'', Num 4)])
      else if pid = ''loading_blue_cycle'' \<or> pid = ''story_pulse'' \<or> pid = ''preparing_group_cycle''
        then other_builders pid ps
      else None)"

subsection \<open>The scripted pattern\<close>

text \<open>\<^verbatim>\<open>ScriptedTimelinePattern\<close>, with the fields of the instance.\<close>

record 'v ScriptedTimelinePattern =
  pixel_count :: int
  pattern_segments :: "'v StoryLedSegment list"
  active_segment_index :: "nat option"
  active_pattern :: "led_pattern option"
  fallback_pattern :: "led_pattern option"

text \<open>
  Construction followed by \<^verbatim>\<open>reset(pixel_count)\<close>. \<open>create\<close> stands for \<^verbatim>\<open>create_pattern\<close>:
  \<open>None\<close> where it raises.
\<close>

definition scripted_timeline_pattern ::
  "(string \<Rightarrow> 'v params \<Rightarrow> led_pattern option) \<Rightarrow> 'v StoryLedTimeline \<Rightarrow> int
     \<Rightarrow> 'v ScriptedTimelinePattern" where
  "scripted_timeline_pattern create timeline pc =
     \<lparr>pixel_count = max 0 pc,
      pattern_segments = segments timeline,
      active_segment_index = None,
      active_pattern = None,
      fallback_pattern =
        (case fallback_pattern_id timeline of
           None \<Rightarrow> None
         | Some fid \<Rightarrow> if fid = [] then None else create fid (fallback_params timeline))\<rparr>"

text \<open>What a call of the time supplier does.\<close>

datatype supplied = Supplier_raises | Supplier_returns "real option"

fun current_time :: "supplied \<Rightarrow> real" where
  "current_time Supplier_raises = 0"
| "current_time (Supplier_returns None) = 0"
| "current_time (Supplier_returns (Some v)) = max 0 v"

definition segment_end :: "float_ops \<Rightarrow> 'v StoryLedSegment list \<Rightarrow> nat \<Rightarrow> real option" where
  "segment_end ops segs idx =
     (let segment = segs ! idx
      in case duration segment of
           Some d \<Rightarrow> Some (fadd ops (start segment) d)
         | None \<Rightarrow> if idx + 1 < length segs then Some (start (segs ! (idx + 1))) else None)"

text \<open>
  The \<^verbatim>\<open>for\<close> loop of \<^verbatim>\<open>_select_segment_index\<close> from index \<open>idx\<close> on, over the segments
  still to visit; \<open>None\<close> when the loop ends without returning.
\<close>

fun select_loop ::
  "float_ops \<Rightarrow> 'v StoryLedSegment list \<Rightarrow> real \<Rightarrow> nat \<Rightarrow> 'v StoryLedSegment list \<Rightarrow> nat option" where
  "select_loop ops segs t idx [] = None"
| "select_loop ops segs t idx (segment # rest) =
     (if t < start segment then
        (if idx = 0 then Some 0 else select_loop ops segs t (Suc idx) rest)
      else
        (case segment_end ops segs idx of
           None \<Rightarrow> Some idx
         | Some end_t \<Rightarrow>
             if t < end_t then Some idx else select_loop ops segs t (Suc idx) rest))"

definition select_segment_index ::
  "float_ops \<Rightarrow> 'v StoryLedSegment list \<Rightarrow> real \<Rightarrow> nat option" where
  "select_segment_index ops segs t =
     (if segs = [] then None
      else case select_loop ops segs t 0 segs of
             Some idx \<Rightarrow> Some idx
           | None \<Rightarrow> Some (length segs - 1))"

text \<open>
  The frame when no pattern of a segment is active: the fallback pattern's own
  \<^verbatim>\<open>render()\<close>, at the time \<open>clock\<close> elapsed since its reset, else every pixel black.
\<close>

definition fallback_or_black :: "real \<Rightarrow> 'v ScriptedTimelinePattern \<Rightarrow> Color list" where
  "fallback_or_black clock p =
     (case fallback_pattern p of
        Some fb \<Rightarrow> render_for_elapsed fb (pixel_count p) clock
      | None \<Rightarrow> replicate (nat (pixel_count p)) (0, 0, 0))"

text \<open>
  \<^verbatim>\<open>ScriptedTimelinePattern.render\<close>: the colours of the frame and the pattern object
  after the call. (Where the active pattern is set the active index is set too, so the
  last branch is never taken.)
\<close>

definition render ::
  "float_ops \<Rightarrow> (string \<Rightarrow> 'v params \<Rightarrow> led_pattern option) \<Rightarrow> supplied \<Rightarrow> real
     \<Rightarrow> 'v ScriptedTimelinePattern \<Rightarrow> Color list \<times> 'v ScriptedTimelinePattern" where
  "render ops create supply clock p =
     (if pixel_count p \<le> 0 then ([], p)
      else
        (let t = current_time supply
         in case select_segment_index ops (pattern_segments p) t of
              None \<Rightarrow> (fallback_or_black clock p, p)
            | Some segment_index \<Rightarrow>
                (let p1 =
                       (if Some segment_index \<noteq> active_segment_index p \<or> active_pattern p = None
                        then
                          (let segment = pattern_segments p ! segment_index
                           in case create (pattern_id segment) (params segment) of
                                Some pat \<Rightarrow>
                                  p\<lparr>active_pattern := Some pat,
                                    active_segment_index := Some segment_index\<rparr>
                              | None \<Rightarrow>
                                  p\<lparr>active_pattern := None, active_segment_index := None\<rparr>)
                        else p)
                 in case active_pattern p1 of
                      None \<Rightarrow> (fallback_or_black clock p1, p1)
                    | Some pat \<Rightarrow>
                        (case active_segment_index p1 of
                           Some active \<Rightarrow>
                             (let segment = pattern_segments p1 ! active;
                                  elapsed = max 0 (fsub ops t (start segment));
                                  elapsed' = (case duration segment of
                                                None \<Rightarrow> elapsed
                                              | Some d \<Rightarrow> min elapsed d)
                              in (render_for_elapsed pat (pixel_count p1) elapsed', p1))
                         | None \<Rightarrow> ([], p1)))))"

text \<open>
  The pattern object after a run of frames, each with what its time supplier did and
  the fallback's clock.
\<close>

definition after_frames ::
  "float_ops \<Rightarrow> (string \<Rightarrow> 'v params \<Rightarrow> led_pattern option) \<Rightarrow> (supplied \<times> real) list
     \<Rightarrow> 'v ScriptedTimelinePattern \<Rightarrow> 'v ScriptedTimelinePattern" where
  "after_frames ops create frames p =
     fold (\<lambda>fr q. snd (render ops create (fst fr) (snd fr) q)) frames p"

section \<open>Notions used to state the properties of the timeline\<close>

text \<open>The position \<open>t\<close> lies in the interval of segment \<open>i\<close>: from its start to its end.\<close>

definition in_interval :: "float_ops \<Rightarrow> 'v StoryLedSegment list \<Rightarrow> nat \<Rightarrow> real \<Rightarrow> bool" where
  "in_interval ops segs i t \<longleftrightarrow>
     start (segs ! i) \<le> t \<and>
     (case segment_end ops segs i of None \<Rightarrow> True | Some e \<Rightarrow> t < e)"

text \<open>
  What the loader guarantees of a segment: a start that is not negative, and a duration
  that is the difference the loader computed between the explicit end and the start,
  when there is an end.
\<close>

definition loaded_segment :: "float_ops \<Rightarrow> 'v StoryLedSegment \<Rightarrow> bool" where
  "loaded_segment ops s \<longleftrightarrow>
     0 \<le> start s \<and>
     duration s =
       (case end_value s of None \<Rightarrow> None | Some e \<Rightarrow> Some (max 0 (fsub ops e (start s))))"

text \<open>The elapsed time \<^verbatim>\<open>render\<close> hands to the pattern of a segment.\<close>

definition segment_elapsed :: "float_ops \<Rightarrow> 'v StoryLedSegment \<Rightarrow> real \<Rightarrow> real" where
  "segment_elapsed ops segment t =
     (case duration segment of
        None \<Rightarrow> max 0 (fsub ops t (start segment))
      | Some d \<Rightarrow> min (max 0 (fsub ops t (start segment))) d)"

text \<open>
  The frame of segment \<open>i\<close> at position \<open>t\<close> on a strip of \<open>pc\<close> pixels: its pattern at the
  segment's elapsed time, or black when the pattern cannot be built.
\<close>

definition segment_frame ::
  "float_ops \<Rightarrow> (string \<Rightarrow> 'v params \<Rightarrow> led_pattern option) \<Rightarrow> 'v StoryLedSegment \<Rightarrow> int
     \<Rightarrow> real \<Rightarrow> Color list" where
  "segment_frame ops create segment pc t =
     (case create (pattern_id segment) (params segment) of
        Some pat \<Rightarrow> render_for_elapsed pat pc (segment_elapsed ops segment t)
      | None \<Rightarrow> replicate (nat pc) (0, 0, 0))"

text \<open>
  The state of a scripted pattern is coherent when its active pattern, if any, is the
  one built from the segment at the active index.
\<close>

definition coherent ::
  "(string \<Rightarrow> 'v params \<Rightarrow> led_pattern option) \<Rightarrow> 'v ScriptedTimelinePattern \<Rightarrow> bool" where
  "coherent create p \<longleftrightarrow>
     (case active_pattern p of
        None \<Rightarrow> True
      | Some pat \<Rightarrow>
          (case active_segment_index p of
             None \<Rightarrow> False
           | Some a \<Rightarrow>
               create (pattern_id (pattern_segments p ! a)) (params (pattern_segments p ! a))
                 = Some pat))"

text \<open>The pattern id of the selected segment.\<close>

definition selected_pattern ::
  "float_ops \<Rightarrow> 'v StoryLedSegment list \<Rightarrow> real \<Rightarrow> string option" where
  "selected_pattern ops segs t =
     (case select_segment_index ops segs t of
        None \<Rightarrow> None
      | Some idx \<Rightarrow> Some (pattern_id (segs ! idx)))"

text \<open>
  The timeline of the example: two entries, from 0 to 5 with pattern \<open>A\<close> and from 5 to
  10 with pattern \<open>B\<close>; the translation keeps the pattern's name and the extra keys.
\<close>

definition keep_name ::
  "string \<Rightarrow> Color option \<Rightarrow> real option \<Rightarrow> 'v params \<Rightarrow> string \<times> 'v params" where
  "keep_name pattern_name col dur ex = (pattern_name, ex)"

definition example_doc :: "string \<Rightarrow> string \<Rightarrow> unit timeline_entry list option" where
  "example_doc A B =
     Some [\<lparr>pattern = Some A, start_time = Some 0, end_time = Some 5, color = None, extra = []\<rparr>,
           \<lparr>pattern = Some B, start_time = Some 5, end_time = Some 10, color = None, extra = []\<rparr>]"

definition example_segments :: "string \<Rightarrow> string \<Rightarrow> unit StoryLedSegment list" where
  "example_segments A B =
     [\<lparr>start = 0, pattern_id = A, duration = Some 5, params = [], end_value = Some 5\<rparr>,
      \<lparr>start = 5, pattern_id = B, duration = Some 5, params = [], end_value = Some 10\<rparr>]"

text \<open>
  Two documents of flashes. The first has an entry from 0 to 5 and an entry that starts
  and ends at 5; the second has one entry, from 2 to 4. Neither gives a colour. No
  pattern but the flash is built for them.
\<close>

definition flash_doc :: "pvalue timeline_entry list option" where
  "flash_doc =
     Some [\<lparr>pattern = Some ''flash'', start_time = Some 0, end_time = Some 5,
             color = None, extra = []\<rparr>,
           \<lparr>pattern = Some ''flash'', start_time = Some 5, end_time = Some 5,
             color = None, extra = []\<rparr>]"

definition flash_timeline :: "pvalue StoryLedTimeline" where
  "flash_timeline =
     \<lparr>segments =
        [\<lparr>start = 0, pattern_id = ''flash'', duration = Some 5,
          params = [(''color'', Ints [255, 255, 255]), (''duration'', Num 5)],
          end_value = Some 5\<rparr>,
         \<lparr>start = 5, pattern_id = ''flash'', duration = Some 0,
          params = [(''color'', Ints [255, 255, 255]), (''duration'', Num (1 / 2))],
          end_value = Some 5\<rparr>],
      fallback_pattern_id = None, fallback_params = []\<rparr>"

definition late_doc :: "pvalue timeline_entry list option" where
  "late_doc =
     Some [\<lparr>pattern = Some ''flash'', start_time = Some 2, end_time = Some 4,
             color = None, extra = []\<rparr>]"

definition late_timeline :: "pvalue StoryLedTimeline" where
  "late_timeline =
     \<lparr>segments =
        [\<lparr>start = 2, pattern_id = ''flash'', duration = Some 2,
          params = [(''color'', Ints [255, 255, 255]), (''duration'', Num 2)],
          end_value = Some 4\<rparr>],
      fallback_pattern_id = None, fallback_params = []\<rparr>"

definition no_others ::
  "string \<Rightarrow> Color option \<Rightarrow> real option \<Rightarrow> pvalue params \<Rightarrow> string \<times> pvalue params" where
  "no_others pattern_name col dur ex = (''story_pulse'', [])"

definition no_builders :: "string \<Rightarrow> pvalue params \<Rightarrow> led_pattern option" where
  "no_builders pid ps = None"

section \<open>The group-partitioned pattern\<close>

datatype py_error = IndexError

text \<open>\<^verbatim>\<open>xs[i] = v\<close> on a Python list: a negative index counts from the end.\<close>

definition py_setitem :: "'a list \<Rightarrow> int \<Rightarrow> 'a \<Rightarrow> py_error + 'a list" where
  "py_setitem xs i v =
     (let n = int (length xs)
      in if 0 \<le> i \<and> i < n then Inr (xs[nat i := v])
         else if - n \<le> i \<and> i < 0 then Inr (xs[nat (n + i) := v])
         else Inl IndexError)"

record GroupCyclePattern =
  base_lengths :: "int list"
  gc_pixel_count :: int
  groups :: "(int \<times> int) list"
  group_overrides :: "Color option list"
  pixel_group_index :: "int list"

text \<open>
  \<^verbatim>\<open>_build_group_cycle\<close> and the constructor, as far as the groups go; the argument is the
  \<^verbatim>\<open>group_lengths\<close> parameter, \<open>None\<close> when it is absent or not a list of integers.
\<close>

definition new_GroupCyclePattern :: "int list \<Rightarrow> GroupCyclePattern" where
  "new_GroupCyclePattern group_lengths =
     \<lparr>base_lengths = (if group_lengths = [] then [1] else group_lengths),
      gc_pixel_count = 0, groups = [], group_overrides = [], pixel_group_index = []\<rparr>"

definition build_group_cycle :: "int list option \<Rightarrow> GroupCyclePattern" where
  "build_group_cycle group_lengths =
     new_GroupCyclePattern
       (case group_lengths of
          None \<Rightarrow> [6, 8, 8, 8]
        | Some ls \<Rightarrow> if ls = [] then [6, 8, 8, 8] else ls)"

text \<open>
  The scale \<^verbatim>\<open>pixel_count / total\<close> and the products \<^verbatim>\<open>length * scale\<close> are computed here
  in the reals; for 30 pixels and a total of 30 the scale is 1 and every product an
  integer, in floating point as well.
\<close>

text \<open>
  The first loop of \<^verbatim>\<open>on_reset\<close>, with its variables \<^verbatim>\<open>cursor\<close>, \<^verbatim>\<open>remaining_pixels\<close> and
  \<^verbatim>\<open>remaining_groups\<close>; it returns \<^verbatim>\<open>indices\<close>.
\<close>

primrec group_indices :: "int \<Rightarrow> real \<Rightarrow> int list \<Rightarrow> int \<Rightarrow> int \<Rightarrow> int \<Rightarrow> (int \<times> int) list" where
  "group_indices pc scale [] cursor remaining_pixels remaining_groups = []"
| "group_indices pc scale (len # rest) cursor remaining_pixels remaining_groups =
     (let remaining_groups' = remaining_groups - 1;
          target0 = max 1 (py_round (of_int len * scale));
          target = (if remaining_groups' = 0 then remaining_pixels
                    else min target0 (remaining_pixels - remaining_groups'));
          stop = min pc (cursor + target)
      in (cursor, stop) #
         group_indices pc scale rest stop (max 0 (pc - stop)) remaining_groups')"

text \<open>The second loop: every pixel of every group receives the group's index.\<close>

fun fill_pixels :: "int list \<Rightarrow> int \<Rightarrow> int list \<Rightarrow> py_error + int list" where
  "fill_pixels xs group_index [] = Inr xs"
| "fill_pixels xs group_index (idx # rest) =
     (case py_setitem xs idx group_index of
        Inl e \<Rightarrow> Inl e
      | Inr xs' \<Rightarrow> fill_pixels xs' group_index rest)"

fun fill_groups :: "int list \<Rightarrow> (nat \<times> int \<times> int) list \<Rightarrow> py_error + int list" where
  "fill_groups xs [] = Inr xs"
| "fill_groups xs ((group_index, a, b) # rest) =
     (case fill_pixels xs (int group_index) [a..b - 1] of
        Inl e \<Rightarrow> Inl e
      | Inr xs' \<Rightarrow> fill_groups xs' rest)"

definition on_reset :: "GroupCyclePattern \<Rightarrow> py_error + GroupCyclePattern" where
  "on_reset p =
     (let total = sum_list (base_lengths p)
      in if total \<le> 0 \<or> gc_pixel_count p \<le> 0
         then Inr (p\<lparr>groups := [], group_overrides := [], pixel_group_index := []\<rparr>)
         else
           (let scale = of_int (gc_pixel_count p) / of_int total;
                indices = group_indices (gc_pixel_count p) scale (base_lengths p) 0
                            (gc_pixel_count p) (int (length (base_lengths p)));
                gs = filter (\<lambda>(a, b). a < b) indices
            in case fill_groups (replicate (nat (gc_pixel_count p)) (- 1))
                      (zip [0..<length gs] gs) of
                 Inl e \<Rightarrow> Inl e
               | Inr pgi \<Rightarrow>
                   Inr (p\<lparr>groups := gs,
                          group_overrides := replicate (length gs) None,
                          pixel_group_index := pgi\<rparr>)))"

definition reset :: "int \<Rightarrow> GroupCyclePattern \<Rightarrow> py_error + GroupCyclePattern" where
  "reset pc p = on_reset (p\<lparr>gc_pixel_count := max 0 pc\<rparr>)"

section \<open>Notions used to state the properties of the group pattern\<close>

text \<open>
  The groups computed for given relative lengths and pixel count, and the pixels the
  ranges of a list of groups cover, range after range.
\<close>

definition computed_groups :: "int list \<Rightarrow> int \<Rightarrow> (int \<times> int) list option" where
  "computed_groups lengths pc =
     (case reset pc (build_group_cycle (Some lengths)) of
        Inl e \<Rightarrow> None
      | Inr p \<Rightarrow> Some (groups p))"

definition covered_pixels :: "(int \<times> int) list \<Rightarrow> int list" where
  "covered_pixels gs = concat (map (\<lambda>(a, b). [a..b - 1]) gs)"

section \<open>Properties of the controller\<close>

subsection \<open>Name resolution and the feedback loop\<close>

lemma character_name_fst: "fst (character_name api t c) = resolve_name api (tag_names c) t"
  by (auto simp: character_name_def resolve_name_def split: option.splits)

lemma character_name_frame:
  "state (snd (character_name api t c)) = state c"
  "session (snd (character_name api t c)) = session c"
  "reader_active_tags (snd (character_name api t c)) = reader_active_tags c"
  "calls (snd (character_name api t c)) = calls c"
  "pending_stop_confirm (snd (character_name api t c)) = pending_stop_confirm c"
  by (auto simp: character_name_def split: option.splits)

lemma character_name_resolve:
  "resolve_name api (tag_names (snd (character_name api t c))) u = resolve_name api (tag_names c) u"
  by (auto simp: character_name_def resolve_name_def split: option.splits)

lemma feedback_loop_frame:
  "state (snd (feedback_loop api gs acc c)) = state c \<and>
   session (snd (feedback_loop api gs acc c)) = session c \<and>
   reader_active_tags (snd (feedback_loop api gs acc c)) = reader_active_tags c \<and>
   pending_stop_confirm (snd (feedback_loop api gs acc c)) = pending_stop_confirm c \<and>
   (\<forall>u. resolve_name api (tag_names (snd (feedback_loop api gs acc c))) u = resolve_name api (tag_names c) u)"
proof (induction gs arbitrary: acc c)
  case Nil
  then show ?case by simp
next
  case (Cons g gs)
  obtain r gi where g: "g = (r, gi)" by (cases g)
  show ?case
  proof (cases "dict_get (reader_active_tags c) r")
    case None
    then show ?thesis using Cons.IH g by (simp add: emit_def)
  next
    case (Some t)
    then show ?thesis using Cons.IH g
      by (simp add: emit_def Let_def split_beta character_name_frame character_name_resolve)
  qed
qed

lemma feedback_loop_fst:
  "fst (feedback_loop api gs acc c) = acc @ map (resolve_name api (tag_names c)) (held_tags gs (reader_active_tags c))"
proof (induction gs arbitrary: acc c)
  case Nil
  then show ?case by (simp add: held_tags_def)
next
  case (Cons g gs)
  obtain r gi where g: "g = (r, gi)" by (cases g)
  show ?case
  proof (cases "dict_get (reader_active_tags c) r")
    case None
    then show ?thesis using Cons.IH g by (simp add: emit_def held_tags_def)
  next
    case (Some t)
    then show ?thesis using Cons.IH g
      by (simp add: emit_def Let_def split_beta character_name_frame character_name_resolve
           character_name_fst held_tags_def)
  qed
qed


lemma feedback_loop_calls:
  "\<exists>xs. calls (snd (feedback_loop api gs acc c)) = calls c @ xs \<and>
        list_all is_group_call xs \<and>
        (\<forall>rg \<in> set gs. dict_get (reader_active_tags c) (fst rg) = None
            \<longrightarrow> Led_clear_group_color (snd rg) \<in> set xs)"
proof (induction gs arbitrary: acc c)
  case Nil
  then show ?case by simp
next
  case (Cons g gs)
  obtain r gi where g: "g = (r, gi)" by (cases g)
  show ?case
  proof (cases "dict_get (reader_active_tags c) r")
    case None
    let ?c1 = "emit (Led_clear_group_color gi) c"
    from Cons.IH[of acc ?c1] obtain xs where
      xs: "calls (snd (feedback_loop api gs acc ?c1)) = calls ?c1 @ xs"
        "list_all is_group_call xs"
        "\<forall>rg \<in> set gs. dict_get (reader_active_tags ?c1) (fst rg) = None
            \<longrightarrow> Led_clear_group_color (snd rg) \<in> set xs"
      by blast
    have "calls (snd (feedback_loop api (g # gs) acc c)) = calls c @ (Led_clear_group_color gi # xs)"
      using xs(1) None g by (simp add: emit_def)
    moreover have "list_all is_group_call (Led_clear_group_color gi # xs)" using xs(2) by simp
    ultimately show ?thesis using xs(3) None g
      by (intro exI[of _ "Led_clear_group_color gi # xs"]) (auto simp: emit_def)
  next
    case (Some t)
    define col where "col = (case tag_colors c t of Some col \<Rightarrow> col
                  | None \<Rightarrow> group_highlight_colors ! nat (gi mod int (length group_highlight_colors)))"
    let ?c1 = "emit (Led_set_group_color gi col) c"
    let ?c2 = "snd (character_name api t ?c1)"
    let ?acc = "acc @ [fst (character_name api t ?c1)]"
    have step: "feedback_loop api (g # gs) acc c = feedback_loop api gs ?acc ?c2"
      using Some g by (simp add: Let_def split_beta col_def)
    have c2: "calls ?c2 = calls c @ [Led_set_group_color gi col]"
       "reader_active_tags ?c2 = reader_active_tags c"
      by (simp_all add: character_name_frame emit_def)
    from Cons.IH[of ?acc ?c2] obtain xs where
      xs: "calls (snd (feedback_loop api gs ?acc ?c2)) = calls ?c2 @ xs"
        "list_all is_group_call xs"
        "\<forall>rg \<in> set gs. dict_get (reader_active_tags ?c2) (fst rg) = None
            \<longrightarrow> Led_clear_group_color (snd rg) \<in> set xs"
      by blast
    show ?thesis
      apply (rule exI[of _ "Led_set_group_color gi col # xs"])
      using xs c2 Some g unfolding step by auto
  qed
qed

lemma update_preparing_feedback_props:
  assumes "state c = PREPARING_STORY"
  shows "state (update_preparing_feedback api c) = PREPARING_STORY"
    and "reader_active_tags (update_preparing_feedback api c) = reader_active_tags c"
    and "pending_stop_confirm (update_preparing_feedback api c) = pending_stop_confirm c"
    and "characters (session (update_preparing_feedback api c)) =
           map (resolve_name api (tag_names c)) (held_tags ordered_groups (reader_active_tags c))"
    and "duration_mode (session (update_preparing_feedback api c)) = duration_mode (session c)"
    and "story_audio_path (session (update_preparing_feedback api c)) = story_audio_path (session c)"
    and "led_pattern (session (update_preparing_feedback api c)) = led_pattern (session c)"
    and "resolve_name api (tag_names (update_preparing_feedback api c)) u = resolve_name api (tag_names c) u"
    and "\<exists>xs. calls (update_preparing_feedback api c) = calls c @ xs \<and> list_all is_group_call xs \<and>
           (\<forall>rg \<in> set ordered_groups. dict_get (reader_active_tags c) (fst rg) = None
               \<longrightarrow> Led_clear_group_color (snd rg) \<in> set xs)"
  using assms feedback_loop_frame[of api ordered_groups "[]" c]
    feedback_loop_fst[of api ordered_groups "[]" c]
    feedback_loop_calls[of api ordered_groups "[]" c]
  by (simp_all add: update_preparing_feedback_def split_beta Let_def)


lemma play_system_prompt_frame:
  "state (play_system_prompt a b c) = state c"
  "session (play_system_prompt a b c) = session c"
  "reader_active_tags (play_system_prompt a b c) = reader_active_tags c"
  "tag_names (play_system_prompt a b c) = tag_names c"
  "tag_colors (play_system_prompt a b c) = tag_colors c"
  "pending_stop_confirm (play_system_prompt a b c) = pending_stop_confirm c"
  by (simp_all add: play_system_prompt_def emit_def)

lemma on_tag_detected_slots:
  "reader_active_tags (on_tag_detected api r t c) = slot_after (Tag_detected r t) (reader_active_tags c)"
  by (simp add: on_tag_detected_def Let_def split_beta update_preparing_feedback_def
        feedback_loop_frame play_system_prompt_frame character_name_frame)

lemma on_tag_removed_slots:
  "reader_active_tags (on_tag_removed api r c) = slot_after (Tag_removed r) (reader_active_tags c)"
  by (auto simp: on_tag_removed_def Let_def split_beta update_preparing_feedback_def dict_get_def
        feedback_loop_frame play_system_prompt_frame split: option.splits)

lemma on_tag_detected_inv:
  assumes "tags_inv api names0 c"
  shows "tags_inv api names0 (on_tag_detected api r t c)"
proof (cases "reader_active_tags c r = None")
  case True
  then show ?thesis using assms by (simp add: on_tag_detected_def)
next
  case False
  then obtain v where known: "reader_active_tags c r = Some v" by auto
  define c1 where "c1 = c\<lparr>reader_active_tags := (reader_active_tags c)(r \<mapsto> Some t)\<rparr>"
  define c2 where "c2 = snd (character_name api t c1)"
  define c3 where "c3 = (if dict_get (reader_active_tags c) r \<noteq> Some t
                         then play_system_prompt ''characters'' (fst (character_name api t c1)) c2 else c2)"
  have st: "state c = PREPARING_STORY" using assms by (simp add: tags_inv_def)
  have eq: "on_tag_detected api r t c = update_preparing_feedback api c3"
    using known st by (simp add: on_tag_detected_def Let_def split_beta c1_def c2_def c3_def)
  have c3: "state c3 = PREPARING_STORY" "reader_active_tags c3 = reader_active_tags c1"
      "\<And>u. resolve_name api (tag_names c3) u = resolve_name api names0 u"
    using st assms
    by (simp_all add: c3_def c2_def c1_def play_system_prompt_frame character_name_frame
          character_name_resolve tags_inv_def)
  show ?thesis unfolding eq tags_inv_def
    using update_preparing_feedback_props(1,2,4,8)[OF c3(1), of api] c3
    by (simp add: map_eq_conv)
qed

lemma on_tag_removed_inv:
  assumes "tags_inv api names0 c"
  shows "tags_inv api names0 (on_tag_removed api r c)"
proof (cases "dict_get (reader_active_tags c) r")
  case None
  then show ?thesis using assms by (simp add: on_tag_removed_def)
next
  case (Some t)
  then have known: "reader_active_tags c r = Some (Some t)"
    by (auto simp: dict_get_def split: option.splits)
  define c1 where "c1 = play_system_prompt ''system'' ''tag_removed''
                          (c\<lparr>reader_active_tags := (reader_active_tags c)(r \<mapsto> None)\<rparr>)"
  have st: "state c = PREPARING_STORY" using assms by (simp add: tags_inv_def)
  have eq: "on_tag_removed api r c = update_preparing_feedback api c1"
    using known Some st by (simp add: on_tag_removed_def Let_def c1_def)
  have c1: "state c1 = PREPARING_STORY"
      "\<And>u. resolve_name api (tag_names c1) u = resolve_name api names0 u"
    using st assms by (simp_all add: c1_def play_system_prompt_frame tags_inv_def)
  show ?thesis unfolding eq tags_inv_def
    using update_preparing_feedback_props(1,2,4,8)[OF c1(1), of api] c1
    by (simp add: map_eq_conv)
qed

lemma run_tag_events_inv:
  "tags_inv api names0 c \<Longrightarrow> tags_inv api names0 (run_tag_events api evs c)"
  unfolding run_tag_events_def
proof (induction evs arbitrary: c)
  case Nil
  then show ?case by simp
next
  case (Cons ev evs)
  have "tags_inv api names0 (handle_tag_event api ev c)"
    using Cons.prems by (cases ev) (simp_all add: on_tag_detected_inv on_tag_removed_inv)
  then show ?case using Cons.IH by simp
qed

lemma run_tag_events_slots:
  "reader_active_tags (run_tag_events api evs c) = fold slot_after evs (reader_active_tags c)"
  unfolding run_tag_events_def
proof (induction evs arbitrary: c)
  case Nil
  then show ?case by simp
next
  case (Cons ev evs)
  have "reader_active_tags (handle_tag_event api ev c) = slot_after ev (reader_active_tags c)"
    by (cases ev) (simp_all only: handle_tag_event.simps on_tag_detected_slots on_tag_removed_slots)
  then show ?case using Cons.IH by simp
qed

lemma set_state_frame:
  "state (set_state s c) = s"
  "session (set_state s c) = session c"
  "reader_active_tags (set_state s c) = reader_active_tags c"
  "tag_names (set_state s c) = tag_names c"
  "tag_colors (set_state s c) = tag_colors c"
  "pending_stop_confirm (set_state s c) = pending_stop_confirm c"
  by (simp_all add: set_state_def emit_def)

lemma start_preparing_inv: "tags_inv api (tag_names c) (start_preparing api pins c)"
proof -
  define c3 where "c3 = play_system_prompt ''system'' ''preparing_story''
     ((set_state PREPARING_STORY c)\<lparr>session := (session (set_state PREPARING_STORY c))\<lparr>duration_mode := read_mode pins\<rparr>\<rparr>)"
  have eq: "start_preparing api pins c = update_preparing_feedback api c3"
    by (simp add: start_preparing_def Let_def c3_def)
  have c3: "state c3 = PREPARING_STORY" "reader_active_tags c3 = reader_active_tags c" "tag_names c3 = tag_names c"
    by (simp_all add: c3_def play_system_prompt_frame set_state_frame)
  show ?thesis unfolding eq tags_inv_def
    using update_preparing_feedback_props(1,2,4,8)[OF c3(1), of api] c3 by simp
qed

lemma ordered_groups_eq:
  "ordered_groups = [(''reader4'', 0), (''reader3'', 1), (''reader1'', 2), (''reader2'', 3)]"
  by (simp add: ordered_groups_def reader_to_group_def)

subsection \<open>Claims about the controller\<close>

text \<open>
  C10: a prompt requested while the state is \<open>PLAYING_STORY\<close> is replaced by the fixed
  (system, error) prompt; in every other state the requested prompt is played. Nothing
  else of the controller changes. So a change of duration during \<open>PLAYING_STORY\<close> plays
  (system, error) and not the prompt named after the mode.
\<close>

theorem C10_play_system_prompt:
  "play_system_prompt category event_name c =
     c\<lparr>calls := calls c @
        [if state c = PLAYING_STORY then System_audio_play_event ''system'' ''error''
         else System_audio_play_event category event_name]\<rparr> \<and>
   calls (on_duration_change mode c) =
     calls c @
        [if state c = PLAYING_STORY then System_audio_play_event ''system'' ''error''
         else System_audio_play_event ''system'' mode]"
  by (simp add: play_system_prompt_def on_duration_change_def emit_def)

text \<open>
  C5: after \<^verbatim>\<open>start_preparing\<close> and any sequence of tag events, the state is still
  \<open>PREPARING_STORY\<close>, the slot table is the one the events leave (whatever their
  order of arrival), and the session's character list is the names of the held tags
  listed by ascending group index (groups 0, 1, 2, 3).
\<close>

theorem C5_active_characters_by_group:
  "state (run_tag_events api evs (start_preparing api pins c)) = PREPARING_STORY \<and>
   reader_active_tags (run_tag_events api evs (start_preparing api pins c)) =
     fold slot_after evs (reader_active_tags c) \<and>
   characters (session (run_tag_events api evs (start_preparing api pins c))) =
     map (resolve_name api (tag_names c))
       (held_tags ordered_groups
          (reader_active_tags (run_tag_events api evs (start_preparing api pins c)))) \<and>
   map snd ordered_groups = [0, 1, 2, 3]"
proof -
  have inv: "tags_inv api (tag_names c) (run_tag_events api evs (start_preparing api pins c))"
    by (rule run_tag_events_inv) (rule start_preparing_inv)
  have slots0: "reader_active_tags (start_preparing api pins c) = reader_active_tags c"
    using start_preparing_inv[of api c pins]
    by (simp add: start_preparing_def Let_def update_preparing_feedback_def split_beta
          feedback_loop_frame play_system_prompt_frame set_state_frame)
  show ?thesis
    using inv slots0 by (simp add: tags_inv_def run_tag_events_slots ordered_groups_eq)
qed

text \<open>
  An instance: a tag put on reader 1 and a tag put on reader 4, in either order, give
  the same list, reader 4 (group 0) before reader 1 (group 2).
\<close>

lemma tag_order_instance:
  "characters (session (run_tag_events None [Tag_detected ''reader1'' 5, Tag_detected ''reader4'' 7]
                  (start_preparing None (HIGH, HIGH) (init_controller ''epic.mp3''))))
     = [''char_7'', ''char_5'']"
  "characters (session (run_tag_events None [Tag_detected ''reader4'' 7, Tag_detected ''reader1'' 5]
                  (start_preparing None (HIGH, HIGH) (init_controller ''epic.mp3''))))
     = [''char_7'', ''char_5'']"
  by (simp_all add: run_tag_events_def init_controller_def start_preparing_def set_state_def
        emit_def play_system_prompt_def update_preparing_feedback_def ordered_groups_eq
        dict_get_def reader_to_group_def Let_def new_StorySession_def on_tag_detected_def
        character_name_def fallback_name_def str_int_def str_nat.simps
        group_highlight_colors_def)

subsection \<open>The concrete run\<close>

lemmas controller_defs =
  on_network_ready_def start_preparing_def set_state_def emit_def play_system_prompt_def
  update_preparing_feedback_def ordered_groups_eq dict_get_def reader_to_group_def Let_def
  new_StorySession_def on_tag_detected_def on_tag_removed_def character_name_def
  fallback_name_def str_int_def str_nat.simps group_highlight_colors_def on_rotary_click_def
  request_story_def request_story_run_def start_story_def on_stop_button_def pause_story_def
  resume_story_def stop_story_and_reset_def on_story_finished_def init_controller_def

lemma ex_preparing_eval:
  "ex_preparing =
     \<lparr>story_file = ''epic.mp3'', state = PREPARING_STORY,
      session = \<lparr>characters = [], duration_mode = ''medium'',
                  story_audio_path = None, led_pattern = None\<rparr>,
      pending_stop_confirm = False, tag_names = Map.empty, tag_colors = Map.empty,
      reader_active_tags =
        [''reader4'' \<mapsto> None, ''reader3'' \<mapsto> None, ''reader2'' \<mapsto> None, ''reader1'' \<mapsto> None],
      calls =
        [Led_apply_state BOOTING, Led_apply_state IDLE_READY, Led_apply_state PREPARING_STORY,
         System_audio_play_event ''system'' ''preparing_story'',
         Led_clear_group_color 0, Led_clear_group_color 1,
         Led_clear_group_color 2, Led_clear_group_color 3]\<rparr>"
  by (simp add: ex_preparing_def ex_boot_def controller_defs)

lemma ex_one_tag_eval:
  "ex_one_tag =
     \<lparr>story_file = ''epic.mp3'', state = PREPARING_STORY,
      session = \<lparr>characters = [''char_7''], duration_mode = ''medium'',
                  story_audio_path = None, led_pattern = None\<rparr>,
      pending_stop_confirm = False, tag_names = Map.empty, tag_colors = Map.empty,
      reader_active_tags =
        [''reader3'' \<mapsto> None, ''reader2'' \<mapsto> None, ''reader1'' \<mapsto> None, ''reader4'' \<mapsto> Some 7],
      calls =
        [Led_apply_state BOOTING, Led_apply_state IDLE_READY, Led_apply_state PREPARING_STORY,
         System_audio_play_event ''system'' ''preparing_story'',
         Led_clear_group_color 0, Led_clear_group_color 1,
         Led_clear_group_color 2, Led_clear_group_color 3,
         System_audio_play_event ''characters'' ''char_7'',
         Led_set_group_color 0 (255, 120, 30), Led_clear_group_color 1,
         Led_clear_group_color 2, Led_clear_group_color 3]\<rparr>"
  by (simp add: ex_one_tag_def ex_preparing_eval controller_defs)

lemma ex_requesting_eval:
  "ex_requesting =
     ex_one_tag\<lparr>state := REQUESTING_STORY,
       calls := calls ex_one_tag @
         [Led_trigger_event ''play_button_press'', Led_apply_state REQUESTING_STORY,
          Thread_start_run]\<rparr>"
  by (simp add: ex_requesting_def ex_one_tag_eval controller_defs)

lemma ex_playing_eval:
  "ex_playing =
     ex_one_tag\<lparr>state := PLAYING_STORY,
       session := \<lparr>characters = [''char_7''], duration_mode = ''medium'',
                   story_audio_path = Some ''epic.mp3'', led_pattern = None\<rparr>,
       calls := calls ex_one_tag @
         [Led_trigger_event ''play_button_press'', Led_apply_state REQUESTING_STORY,
          Thread_start_run,
          System_audio_play_event ''system'' ''story_waiting'',
          System_audio_play_event ''system'' ''story_start'',
          Led_clear_story_timeline, Led_apply_state PLAYING_STORY,
          Player_play_story ''epic.mp3'']\<rparr>"
  by (simp add: ex_playing_def ex_requesting_eval ex_one_tag_eval controller_defs)

lemma ex_confirm_stop_eval:
  "ex_confirm_stop =
     ex_playing\<lparr>state := CONFIRM_STOP, pending_stop_confirm := True,
       calls := calls ex_playing @
         [Led_trigger_event ''stop_button_press'', Led_apply_state PAUSED, Player_pause_story,
          Led_apply_state CONFIRM_STOP, System_audio_play_event ''system'' ''stop_story'']\<rparr>"
  by (simp add: ex_confirm_stop_def ex_playing_eval ex_one_tag_eval controller_defs)

subsection \<open>Request, removal, reset and the rotary click\<close>

text \<open>
  C3: when the session's character list is empty, \<^verbatim>\<open>request_story\<close> leaves the state and
  the session as they were; invoked in \<open>PREPARING_STORY\<close> it changes nothing but to play
  the (system, no_characters) prompt, and starts no worker thread.
\<close>

theorem C3_request_story_no_characters:
  assumes "characters (session c) = []"
  shows "state (request_story c) = state c \<and>
         session (request_story c) = session c \<and>
         (state c = PREPARING_STORY \<longrightarrow>
            request_story c =
              c\<lparr>calls := calls c @ [System_audio_play_event ''system'' ''no_characters'']\<rparr>)"
  using assms by (simp add: request_story_def play_system_prompt_def emit_def)

theorem C3_request_story_no_characters_witness:
  "characters (session ex_preparing) = [] \<and>
   state ex_preparing = PREPARING_STORY \<and>
   state (request_story ex_preparing) = PREPARING_STORY \<and>
   session (request_story ex_preparing) = session ex_preparing \<and>
   calls (request_story ex_preparing) =
     calls ex_preparing @ [System_audio_play_event ''system'' ''no_characters'']"
proof -
  have h: "characters (session ex_preparing) = []" by (simp add: ex_preparing_eval)
  have st: "state ex_preparing = PREPARING_STORY" by (simp add: ex_preparing_eval)
  from C3_request_story_no_characters [OF h] st h show ?thesis by simp
qed

lemma start_preparing_props:
  "state (start_preparing api pins c) = PREPARING_STORY"
  "pending_stop_confirm (start_preparing api pins c) = pending_stop_confirm c"
  "reader_active_tags (start_preparing api pins c) = reader_active_tags c"
  "duration_mode (session (start_preparing api pins c)) = read_mode pins"
  "story_audio_path (session (start_preparing api pins c)) = story_audio_path (session c)"
  "led_pattern (session (start_preparing api pins c)) = led_pattern (session c)"
  "characters (session (start_preparing api pins c)) =
     map (resolve_name api (tag_names c)) (held_tags ordered_groups (reader_active_tags c))"
proof -
  define c3 where "c3 = play_system_prompt ''system'' ''preparing_story''
     ((set_state PREPARING_STORY c)\<lparr>session :=
        (session (set_state PREPARING_STORY c))\<lparr>duration_mode := read_mode pins\<rparr>\<rparr>)"
  have eq: "start_preparing api pins c = update_preparing_feedback api c3"
    by (simp add: start_preparing_def Let_def c3_def)
  have c3: "state c3 = PREPARING_STORY" "reader_active_tags c3 = reader_active_tags c"
    "tag_names c3 = tag_names c" "pending_stop_confirm c3 = pending_stop_confirm c"
    "duration_mode (session c3) = read_mode pins"
    "story_audio_path (session c3) = story_audio_path (session c)"
    "led_pattern (session c3) = led_pattern (session c)"
    by (simp_all add: c3_def play_system_prompt_frame set_state_frame)
  note p = update_preparing_feedback_props[OF c3(1), of api]
  show "state (start_preparing api pins c) = PREPARING_STORY"
    unfolding eq using p(1) .
  show "pending_stop_confirm (start_preparing api pins c) = pending_stop_confirm c"
    unfolding eq using p(3) c3(4) by simp
  show "reader_active_tags (start_preparing api pins c) = reader_active_tags c"
    unfolding eq using p(2) c3(2) by simp
  show "duration_mode (session (start_preparing api pins c)) = read_mode pins"
    unfolding eq using p(5) c3(5) by simp
  show "story_audio_path (session (start_preparing api pins c)) = story_audio_path (session c)"
    unfolding eq using p(6) c3(6) by simp
  show "led_pattern (session (start_preparing api pins c)) = led_pattern (session c)"
    unfolding eq using p(7) c3(7) by simp
  show "characters (session (start_preparing api pins c)) =
     map (resolve_name api (tag_names c)) (held_tags ordered_groups (reader_active_tags c))"
    unfolding eq using p(4) c3(2,3) by simp
qed

text \<open>
  The other entry into \<open>PREPARING_STORY\<close>, the worker thread giving up with no default
  story, establishes the same invariant as \<^verbatim>\<open>start_preparing\<close>.
\<close>

lemma request_story_run_failure_inv:
  assumes "story_file c = []"
  shows "tags_inv api (tag_names c) (request_story_run api None timeline_loaded c)"
proof -
  define c1 where "c1 = set_state PREPARING_STORY
     (play_system_prompt ''system'' ''error'' (play_system_prompt ''system'' ''story_waiting'' c))"
  have eq: "request_story_run api None timeline_loaded c = update_preparing_feedback api c1"
    using assms by (simp add: request_story_run_def Let_def c1_def play_system_prompt_def emit_def)
  have c1: "state c1 = PREPARING_STORY" "reader_active_tags c1 = reader_active_tags c"
    "tag_names c1 = tag_names c"
    by (simp_all add: c1_def play_system_prompt_frame set_state_frame)
  show ?thesis unfolding eq tags_inv_def
    using update_preparing_feedback_props(1,2,4,8)[OF c1(1), of api] c1 by simp
qed

text \<open>
  C9 (as the code has it): when the slot of a known reader holds a tag, a removal in
  \<open>PREPARING_STORY\<close> empties the slot, plays the (system, tag_removed) prompt, then
  issues group colour calls only, among them the clearing of that reader's group, and
  recomputes the character list from the slots; outside \<open>PREPARING_STORY\<close> it empties
  the slot and changes nothing else. When the slot is already empty the event changes
  nothing at all.
\<close>

theorem C9_tag_removed:
  "(reader_active_tags c reader_id = Some (Some tag_id) \<and> state c = PREPARING_STORY \<longrightarrow>
      reader_active_tags (on_tag_removed api reader_id c) =
        (reader_active_tags c)(reader_id \<mapsto> None) \<and>
      state (on_tag_removed api reader_id c) = PREPARING_STORY \<and>
      characters (session (on_tag_removed api reader_id c)) =
        map (resolve_name api (tag_names c))
          (held_tags ordered_groups ((reader_active_tags c)(reader_id \<mapsto> None))) \<and>
      (\<exists>xs. calls (on_tag_removed api reader_id c) =
              calls c @ System_audio_play_event ''system'' ''tag_removed'' # xs \<and>
            list_all is_group_call xs \<and>
            (\<forall>g. (reader_id, g) \<in> set reader_to_group \<longrightarrow> Led_clear_group_color g \<in> set xs))) \<and>
   (reader_active_tags c reader_id = Some (Some tag_id) \<and> state c \<noteq> PREPARING_STORY \<longrightarrow>
      on_tag_removed api reader_id c =
        c\<lparr>reader_active_tags := (reader_active_tags c)(reader_id \<mapsto> None)\<rparr>) \<and>
   (reader_active_tags c reader_id = Some None \<longrightarrow> on_tag_removed api reader_id c = c)"
proof (intro conjI impI)
  assume h: "reader_active_tags c reader_id = Some (Some tag_id) \<and> state c = PREPARING_STORY"
  define c1 where "c1 = play_system_prompt ''system'' ''tag_removed''
                          (c\<lparr>reader_active_tags := (reader_active_tags c)(reader_id \<mapsto> None)\<rparr>)"
  have eq: "on_tag_removed api reader_id c = update_preparing_feedback api c1"
    using h by (simp add: on_tag_removed_def dict_get_def Let_def c1_def)
  have c1: "state c1 = PREPARING_STORY"
    "reader_active_tags c1 = (reader_active_tags c)(reader_id \<mapsto> None)"
    "tag_names c1 = tag_names c"
    "calls c1 = calls c @ [System_audio_play_event ''system'' ''tag_removed'']"
    using h by (simp_all add: c1_def play_system_prompt_def emit_def)
  note p = update_preparing_feedback_props[OF c1(1), of api]
  show "reader_active_tags (on_tag_removed api reader_id c) =
          (reader_active_tags c)(reader_id \<mapsto> None)"
    unfolding eq using p(2) c1(2) by simp
  show "state (on_tag_removed api reader_id c) = PREPARING_STORY"
    unfolding eq using p(1) .
  show "characters (session (on_tag_removed api reader_id c)) =
        map (resolve_name api (tag_names c))
          (held_tags ordered_groups ((reader_active_tags c)(reader_id \<mapsto> None)))"
    unfolding eq using p(4) c1(2,3) by simp
  from p(9) obtain xs where xs: "calls (update_preparing_feedback api c1) = calls c1 @ xs"
    "list_all is_group_call xs"
    "\<forall>rg \<in> set ordered_groups. dict_get (reader_active_tags c1) (fst rg) = None
        \<longrightarrow> Led_clear_group_color (snd rg) \<in> set xs"
    by blast
  have "\<forall>g. (reader_id, g) \<in> set reader_to_group \<longrightarrow> Led_clear_group_color g \<in> set xs"
  proof (intro allI impI)
    fix g assume "(reader_id, g) \<in> set reader_to_group"
    then have "(reader_id, g) \<in> set ordered_groups" by (simp add: ordered_groups_def)
    moreover have "dict_get (reader_active_tags c1) reader_id = None"
      by (simp add: c1(2) dict_get_def)
    ultimately show "Led_clear_group_color g \<in> set xs" using xs(3) by fastforce
  qed
  then show "\<exists>xs. calls (on_tag_removed api reader_id c) =
              calls c @ System_audio_play_event ''system'' ''tag_removed'' # xs \<and>
            list_all is_group_call xs \<and>
            (\<forall>g. (reader_id, g) \<in> set reader_to_group \<longrightarrow> Led_clear_group_color g \<in> set xs)"
    unfolding eq using xs(1,2) c1(4) by (intro exI[of _ xs]) simp
next
  assume "reader_active_tags c reader_id = Some (Some tag_id) \<and> state c \<noteq> PREPARING_STORY"
  then show "on_tag_removed api reader_id c =
        c\<lparr>reader_active_tags := (reader_active_tags c)(reader_id \<mapsto> None)\<rparr>"
    by (simp add: on_tag_removed_def dict_get_def Let_def)
next
  assume "reader_active_tags c reader_id = Some None"
  then show "on_tag_removed api reader_id c = c"
    by (simp add: on_tag_removed_def dict_get_def)
qed

theorem C9_tag_removed_witness:
  "reader_active_tags ex_one_tag ''reader4'' = Some (Some 7) \<and>
   state ex_one_tag = PREPARING_STORY \<and>
   reader_active_tags (on_tag_removed None ''reader4'' ex_one_tag) ''reader4'' = Some None \<and>
   characters (session (on_tag_removed None ''reader4'' ex_one_tag)) = [] \<and>
   Led_clear_group_color 0 \<in> set (calls (on_tag_removed None ''reader4'' ex_one_tag)) \<and>
   System_audio_play_event ''system'' ''tag_removed''
     \<in> set (calls (on_tag_removed None ''reader4'' ex_one_tag)) \<and>
   reader_active_tags ex_playing ''reader4'' = Some (Some 7) \<and>
   state ex_playing = PLAYING_STORY \<and>
   on_tag_removed None ''reader4'' ex_playing =
     ex_playing\<lparr>reader_active_tags := (reader_active_tags ex_playing)(''reader4'' \<mapsto> None)\<rparr> \<and>
   reader_active_tags ex_preparing ''reader1'' = Some None \<and>
   on_tag_removed None ''reader1'' ex_preparing = ex_preparing"
proof -
  have a: "reader_active_tags ex_one_tag ''reader4'' = Some (Some 7)"
    "state ex_one_tag = PREPARING_STORY"
    by (simp_all add: ex_one_tag_eval)
  have b: "reader_active_tags ex_playing ''reader4'' = Some (Some 7)"
    "state ex_playing = PLAYING_STORY"
    by (simp_all add: ex_playing_eval ex_one_tag_eval)
  have d: "reader_active_tags ex_preparing ''reader1'' = Some None"
    by (simp add: ex_preparing_eval)
  have g: "(''reader4'', 0) \<in> set reader_to_group" by (simp add: reader_to_group_def)
  have held: "held_tags ordered_groups ((reader_active_tags ex_one_tag)(''reader4'' \<mapsto> None)) = []"
    by (simp add: held_tags_def ordered_groups_eq ex_one_tag_eval dict_get_def)
  note t1 = C9_tag_removed [of ex_one_tag "''reader4''" 7 None]
  note t2 = C9_tag_removed [of ex_playing "''reader4''" 7 None]
  note t3 = C9_tag_removed [of ex_preparing "''reader1''" 0 None]
  from t1 a g held have
    "reader_active_tags (on_tag_removed None ''reader4'' ex_one_tag) ''reader4'' = Some None"
    "characters (session (on_tag_removed None ''reader4'' ex_one_tag)) = []"
    "Led_clear_group_color 0 \<in> set (calls (on_tag_removed None ''reader4'' ex_one_tag))"
    "System_audio_play_event ''system'' ''tag_removed''
       \<in> set (calls (on_tag_removed None ''reader4'' ex_one_tag))"
    by auto
  moreover from t2 b have "on_tag_removed None ''reader4'' ex_playing =
     ex_playing\<lparr>reader_active_tags := (reader_active_tags ex_playing)(''reader4'' \<mapsto> None)\<rparr>"
    by simp
  moreover from t3 d have "on_tag_removed None ''reader1'' ex_preparing = ex_preparing"
    by simp
  ultimately show ?thesis using a b d by simp
qed

text \<open>
  The claim C9 as first stated fails when the slot is empty: a removal on the known
  reader 1 in \<open>PREPARING_STORY\<close>, with nothing on it, issues no call at all (no prompt,
  no group colour call).
\<close>

theorem C9_empty_slot_counterexample:
  "reader_active_tags ex_preparing ''reader1'' = Some None \<and>
   state ex_preparing = PREPARING_STORY \<and>
   calls (on_tag_removed None ''reader1'' ex_preparing) = calls ex_preparing \<and>
   System_audio_play_event ''system'' ''tag_removed''
     \<notin> set (calls (on_tag_removed None ''reader1'' ex_preparing))"
  by (simp add: ex_preparing_eval on_tag_removed_def dict_get_def)

lemma start_preparing_calls:
  "\<exists>xs. calls (start_preparing api pins c) =
          calls c @ (if state c = PREPARING_STORY then [] else [Led_apply_state PREPARING_STORY]) @
          [System_audio_play_event ''system'' ''preparing_story''] @ xs \<and>
        list_all is_group_call xs"
proof -
  define c3 where "c3 = play_system_prompt ''system'' ''preparing_story''
     ((set_state PREPARING_STORY c)\<lparr>session :=
        (session (set_state PREPARING_STORY c))\<lparr>duration_mode := read_mode pins\<rparr>\<rparr>)"
  have eq: "start_preparing api pins c = update_preparing_feedback api c3"
    by (simp add: start_preparing_def Let_def c3_def)
  have c3: "state c3 = PREPARING_STORY"
    "calls c3 = calls c @ (if state c = PREPARING_STORY then [] else [Led_apply_state PREPARING_STORY]) @
          [System_audio_play_event ''system'' ''preparing_story'']"
    by (simp_all add: c3_def play_system_prompt_def set_state_def emit_def)
  from update_preparing_feedback_props(9)[OF c3(1), of api]
  obtain xs where "calls (update_preparing_feedback api c3) = calls c3 @ xs"
    "list_all is_group_call xs" by blast
  then show ?thesis unfolding eq using c3(2) by (intro exI[of _ xs]) simp
qed

text \<open>
  C4 (as the code has it): \<^verbatim>\<open>stop_story_and_reset\<close> and \<^verbatim>\<open>on_story_finished\<close> satisfy the same
  postcondition, the first after stopping the player and clearing the story timeline,
  the second after clearing the story timeline, and leave the same state and session:
  the controller is put in \<open>IDLE_READY\<close> with a fresh session and the duration just read,
  then re-enters \<open>PREPARING_STORY\<close>, where the duration is read again and the character
  list is rebuilt from the tags still on the readers (empty only when no reader holds
  a tag).
\<close>

theorem C4_reset_postcondition:
  "reset_postcondition api pins1 pins2 [Player_stop_story, Led_clear_story_timeline] c
     (stop_story_and_reset api pins1 pins2 c) \<and>
   reset_postcondition api pins1 pins2 [Led_clear_story_timeline] c
     (on_story_finished api pins1 pins2 c) \<and>
   state (on_story_finished api pins1 pins2 c) = state (stop_story_and_reset api pins1 pins2 c) \<and>
   session (on_story_finished api pins1 pins2 c) = session (stop_story_and_reset api pins1 pins2 c)"
proof -
  let ?m1 = "reset_midpoint pins1 [Player_stop_story, Led_clear_story_timeline] c"
  let ?m2 = "reset_midpoint pins1 [Led_clear_story_timeline] c"
  have m1: "set_state IDLE_READY
              ((emit Led_clear_story_timeline (emit Player_stop_story c))
                 \<lparr>session := new_StorySession\<lparr>duration_mode := read_mode pins1\<rparr>,
                  pending_stop_confirm := False\<rparr>) = ?m1"
    by (rule StoryBoxController.equality)
       (simp_all add: reset_midpoint_def set_state_def emit_def)
  have m2: "set_state IDLE_READY
              ((emit Led_clear_story_timeline c)
                 \<lparr>session := new_StorySession\<lparr>duration_mode := read_mode pins1\<rparr>,
                  pending_stop_confirm := False\<rparr>) = ?m2"
    by (rule StoryBoxController.equality)
       (simp_all add: reset_midpoint_def set_state_def emit_def)
  have e1: "stop_story_and_reset api pins1 pins2 c = start_preparing api pins2 ?m1"
    using m1 by (simp add: stop_story_and_reset_def Let_def)
  have e2: "on_story_finished api pins1 pins2 c = start_preparing api pins2 ?m2"
    using m2 by (simp add: on_story_finished_def Let_def)
  have f: "state (reset_midpoint pins1 pre c) = IDLE_READY"
    "session (reset_midpoint pins1 pre c) = new_StorySession\<lparr>duration_mode := read_mode pins1\<rparr>"
    "pending_stop_confirm (reset_midpoint pins1 pre c) = False"
    "reader_active_tags (reset_midpoint pins1 pre c) = reader_active_tags c"
    "tag_names (reset_midpoint pins1 pre c) = tag_names c"
    "calls (reset_midpoint pins1 pre c) =
       calls c @ pre @ (if state c = IDLE_READY then [] else [Led_apply_state IDLE_READY])"
    for pre
    by (simp_all add: reset_midpoint_def)
  have post: "reset_postcondition api pins1 pins2 pre c
                (start_preparing api pins2 (reset_midpoint pins1 pre c))" for pre
  proof -
    from start_preparing_calls[of api pins2 "reset_midpoint pins1 pre c"]
    obtain xs where xs: "calls (start_preparing api pins2 (reset_midpoint pins1 pre c)) =
        calls (reset_midpoint pins1 pre c) @ [Led_apply_state PREPARING_STORY] @
          [System_audio_play_event ''system'' ''preparing_story''] @ xs"
      "list_all is_group_call xs"
      by (auto simp: f(1))
    have "\<exists>xs. calls (start_preparing api pins2 (reset_midpoint pins1 pre c)) =
             calls c @ pre @
             (if state c = IDLE_READY then [] else [Led_apply_state IDLE_READY]) @
             [Led_apply_state PREPARING_STORY,
              System_audio_play_event ''system'' ''preparing_story''] @ xs \<and>
           list_all is_group_call xs"
      using xs by (intro exI[of _ xs]) (simp add: f(6))
    then show ?thesis
      unfolding reset_postcondition_def
      by (simp add: start_preparing_props f new_StorySession_def)
  qed
  have s: "session (start_preparing api pins2 ?m2) = session (start_preparing api pins2 ?m1)"
    by (simp add: StorySession.equality start_preparing_props f)
  show ?thesis unfolding e1 e2 using post s by (simp add: start_preparing_props)
qed

text \<open>
  An instance: confirming the stop in the concrete run announces \<open>IDLE_READY\<close>, then
  \<open>PREPARING_STORY\<close>, to the LED controller.
\<close>

lemma reset_instance_calls:
  "calls (stop_story_and_reset None (HIGH, HIGH) (HIGH, HIGH) ex_confirm_stop) =
     calls ex_confirm_stop @
       [Player_stop_story, Led_clear_story_timeline, Led_apply_state IDLE_READY,
        Led_apply_state PREPARING_STORY, System_audio_play_event ''system'' ''preparing_story'',
        Led_set_group_color 0 (255, 120, 30), Led_clear_group_color 1,
        Led_clear_group_color 2, Led_clear_group_color 3]"
  by (simp add: ex_confirm_stop_eval ex_playing_eval ex_one_tag_eval controller_defs)

text \<open>
  The claim C4 as first stated fails when a figurine is still on its reader: after the
  stop is confirmed, and after the story ends by itself, the session lists its
  character again.
\<close>

theorem C4_held_tag_counterexample:
  "state ex_confirm_stop = CONFIRM_STOP \<and>
   characters (session (stop_story_and_reset None (HIGH, HIGH) (HIGH, HIGH) ex_confirm_stop))
     = [''char_7''] \<and>
   state ex_playing = PLAYING_STORY \<and>
   characters (session (on_story_finished None (HIGH, HIGH) (HIGH, HIGH) ex_playing))
     = [''char_7'']"
  by (simp add: ex_confirm_stop_eval ex_playing_eval ex_one_tag_eval controller_defs)

text \<open>
  C1 (as the code has it): a rotary click always triggers the play-button LED event;
  then in \<open>PREPARING_STORY\<close> it runs \<^verbatim>\<open>request_story\<close>; in \<open>PLAYING_STORY\<close> it moves to
  \<open>PAUSED\<close> and pauses the player, with no prompt; in \<open>PAUSED\<close> and in \<open>CONFIRM_STOP\<close> it
  clears the pending stop, moves to \<open>PLAYING_STORY\<close> and resumes the player; in the
  four other states nothing else happens. The move to \<open>CONFIRM_STOP\<close> with the
  (system, stop_story) prompt is what the stop button does, from \<open>PLAYING_STORY\<close> with no
  stop pending.
\<close>

theorem C1_rotary_click:
  "(state c = PREPARING_STORY \<longrightarrow>
      on_rotary_click c = request_story (emit (Led_trigger_event ''play_button_press'') c)) \<and>
   (state c = PLAYING_STORY \<longrightarrow>
      on_rotary_click c =
        c\<lparr>state := PAUSED,
          calls := calls c @ [Led_trigger_event ''play_button_press'',
                              Led_apply_state PAUSED, Player_pause_story]\<rparr>) \<and>
   (state c = PAUSED \<or> state c = CONFIRM_STOP \<longrightarrow>
      on_rotary_click c =
        c\<lparr>state := PLAYING_STORY, pending_stop_confirm := False,
          calls := calls c @ [Led_trigger_event ''play_button_press'',
                              Led_apply_state PLAYING_STORY, Player_resume_story]\<rparr>) \<and>
   (state c = BOOTING \<or> state c = WAITING_NETWORK \<or> state c = IDLE_READY
      \<or> state c = REQUESTING_STORY \<longrightarrow>
      on_rotary_click c = c\<lparr>calls := calls c @ [Led_trigger_event ''play_button_press'']\<rparr>) \<and>
   (state c = PLAYING_STORY \<and> \<not> pending_stop_confirm c \<longrightarrow>
      on_stop_button api pins1 pins2 c =
        c\<lparr>state := CONFIRM_STOP, pending_stop_confirm := True,
          calls := calls c @ [Led_trigger_event ''stop_button_press'',
                              Led_apply_state PAUSED, Player_pause_story,
                              Led_apply_state CONFIRM_STOP,
                              System_audio_play_event ''system'' ''stop_story'']\<rparr>)"
  by (auto simp: on_rotary_click_def on_stop_button_def pause_story_def resume_story_def
        set_state_def emit_def play_system_prompt_def Let_def)

theorem C1_rotary_click_witness:
  "state ex_one_tag = PREPARING_STORY \<and>
   state (on_rotary_click ex_one_tag) = REQUESTING_STORY \<and>
   state ex_playing = PLAYING_STORY \<and>
   state (on_rotary_click ex_playing) = PAUSED \<and>
   state ex_confirm_stop = CONFIRM_STOP \<and>
   state (on_rotary_click ex_confirm_stop) = PLAYING_STORY \<and>
   state ex_requesting = REQUESTING_STORY \<and>
   state (on_rotary_click ex_requesting) = REQUESTING_STORY \<and>
   session (on_rotary_click ex_requesting) = session ex_requesting \<and>
   pending_stop_confirm ex_playing = False \<and>
   state (on_stop_button None (HIGH, HIGH) (HIGH, HIGH) ex_playing) = CONFIRM_STOP"
proof -
  have st: "state ex_one_tag = PREPARING_STORY" "state ex_playing = PLAYING_STORY"
    "state ex_confirm_stop = CONFIRM_STOP" "state ex_requesting = REQUESTING_STORY"
    "pending_stop_confirm ex_playing = False" "characters (session ex_one_tag) = [''char_7'']"
    by (simp_all add: ex_one_tag_eval ex_playing_eval ex_confirm_stop_eval ex_requesting_eval)
  note t1 = C1_rotary_click [of ex_one_tag None "(HIGH, HIGH)" "(HIGH, HIGH)"]
  note t2 = C1_rotary_click [of ex_playing None "(HIGH, HIGH)" "(HIGH, HIGH)"]
  note t3 = C1_rotary_click [of ex_confirm_stop None "(HIGH, HIGH)" "(HIGH, HIGH)"]
  note t4 = C1_rotary_click [of ex_requesting None "(HIGH, HIGH)" "(HIGH, HIGH)"]
  from t1 st have "state (on_rotary_click ex_one_tag) = REQUESTING_STORY"
    by (simp add: request_story_def set_state_def emit_def)
  moreover from t2 st have "state (on_rotary_click ex_playing) = PAUSED" by simp
  moreover from t3 st have "state (on_rotary_click ex_confirm_stop) = PLAYING_STORY" by simp
  moreover from t4 st have "state (on_rotary_click ex_requesting) = REQUESTING_STORY"
    "session (on_rotary_click ex_requesting) = session ex_requesting" by simp_all
  moreover from t2 st have
    "state (on_stop_button None (HIGH, HIGH) (HIGH, HIGH) ex_playing) = CONFIRM_STOP" by simp
  ultimately show ?thesis using st by simp
qed

text \<open>
  The claim C1 as first stated fails in \<open>PLAYING_STORY\<close>: the click leads to \<open>PAUSED\<close>, not
  \<open>CONFIRM_STOP\<close>, and plays no prompt; and a second click, in \<open>PAUSED\<close>, is not ignored:
  it resumes the story.
\<close>

theorem C1_playing_click_counterexample:
  "state ex_playing = PLAYING_STORY \<and>
   state (on_rotary_click ex_playing) = PAUSED \<and>
   calls (on_rotary_click ex_playing) =
     calls ex_playing @
       [Led_trigger_event ''play_button_press'', Led_apply_state PAUSED, Player_pause_story] \<and>
   state (on_rotary_click (on_rotary_click ex_playing)) = PLAYING_STORY"
  by (simp add: ex_playing_eval ex_one_tag_eval on_rotary_click_def pause_story_def
        resume_story_def set_state_def emit_def Let_def)

text \<open>
  C2: the value stored by \<^verbatim>\<open>start_preparing\<close>, \<^verbatim>\<open>stop_story_and_reset\<close> and
  \<^verbatim>\<open>on_story_finished\<close> is whatever \<^verbatim>\<open>read_mode\<close> returns. With both selector inputs low
  that is the string \<^verbatim>\<open>unknown\<close>, which replaces the valid mode stored before.
\<close>

theorem C2_unknown_reading_is_stored:
  "duration_mode (session ex_preparing) = ''medium'' \<and>
   duration_mode (session (start_preparing api (LOW, LOW) ex_preparing)) = ''unknown'' \<and>
   duration_mode (session (start_preparing api (LOW, LOW) c)) = ''unknown'' \<and>
   duration_mode (session (stop_story_and_reset api pins1 (LOW, LOW) c)) = ''unknown'' \<and>
   duration_mode (session (on_story_finished api pins1 (LOW, LOW) c)) = ''unknown''"
  by (simp add: start_preparing_props stop_story_and_reset_def on_story_finished_def Let_def
        ex_preparing_eval)

text \<open>
  The selector's own thread does filter: neither its first notification nor an
  iteration of its loop ever hands \<^verbatim>\<open>unknown\<close> to \<^verbatim>\<open>on_duration_change\<close>.
\<close>

lemma selector_thread_filters_unknown:
  "snd (selector_first pins c) = c \<or>
   duration_mode (session (snd (selector_first pins c))) \<in> {''short'', ''medium'', ''long''}"
  "snd (selector_poll pins (last_mode, c)) = c \<or>
   duration_mode (session (snd (selector_poll pins (last_mode, c))))
     \<in> {''short'', ''medium'', ''long''}"
  by (cases pins; cases "fst pins"; cases "snd pins";
      simp add: selector_first_def selector_poll_def on_duration_change_def
        play_system_prompt_def emit_def Let_def)+

section \<open>Properties of the lighting engine\<close>

subsection \<open>The selection loop\<close>

lemma select_loop_char:
  assumes "segs = pre @ rest" and "idx = length pre"
  shows "(case select_loop ops segs t idx rest of
            Some i \<Rightarrow> idx \<le> i \<and> i < length segs \<and>
                      ((i = 0 \<and> t < start (segs ! 0)) \<or> in_interval ops segs i t) \<and>
                      (\<forall>j. idx \<le> j \<and> j < i \<longrightarrow> \<not> in_interval ops segs j t)
          | None \<Rightarrow> (\<forall>j. idx \<le> j \<and> j < length segs \<longrightarrow> \<not> in_interval ops segs j t))"
  using assms
proof (induction rest arbitrary: pre idx)
  case Nil
  then show ?case by auto
next
  case (Cons segment rest)
  have seg: "segs ! idx = segment" using Cons.prems by simp
  have idx_lt: "idx < length segs" using Cons.prems by simp
  note IH = Cons.IH[of "pre @ [segment]" "Suc idx"]
  have IH': "(case select_loop ops segs t (Suc idx) rest of
            Some i \<Rightarrow> Suc idx \<le> i \<and> i < length segs \<and>
                      ((i = 0 \<and> t < start (segs ! 0)) \<or> in_interval ops segs i t) \<and>
                      (\<forall>j. Suc idx \<le> j \<and> j < i \<longrightarrow> \<not> in_interval ops segs j t)
          | None \<Rightarrow> (\<forall>j. Suc idx \<le> j \<and> j < length segs \<longrightarrow> \<not> in_interval ops segs j t))"
    using IH Cons.prems by simp
  have ext: "\<not> in_interval ops segs idx t \<Longrightarrow>
       (case select_loop ops segs t (Suc idx) rest of
            Some i \<Rightarrow> idx \<le> i \<and> i < length segs \<and>
                      ((i = 0 \<and> t < start (segs ! 0)) \<or> in_interval ops segs i t) \<and>
                      (\<forall>j. idx \<le> j \<and> j < i \<longrightarrow> \<not> in_interval ops segs j t)
          | None \<Rightarrow> (\<forall>j. idx \<le> j \<and> j < length segs \<longrightarrow> \<not> in_interval ops segs j t))"
    using IH' by (auto split: option.splits simp: le_Suc_eq Suc_le_eq) (metis le_neq_implies_less Suc_leI)+
  show ?case
  proof (cases "t < start segment")
    case True
    then have nin: "\<not> in_interval ops segs idx t" using seg by (simp add: in_interval_def)
    show ?thesis
    proof (cases "idx = 0")
      case True
      then show ?thesis using \<open>t < start segment\<close> seg idx_lt by auto
    next
      case False
      then show ?thesis using True ext[OF nin] by simp
    qed
  next
    case False
    show ?thesis
    proof (cases "segment_end ops segs idx")
      case None
      then have "in_interval ops segs idx t" using False seg by (simp add: in_interval_def)
      then show ?thesis using None False idx_lt by auto
    next
      case (Some e)
      show ?thesis
      proof (cases "t < e")
        case True
        then have "in_interval ops segs idx t" using False seg Some by (simp add: in_interval_def)
        then show ?thesis using Some True False idx_lt by auto
      next
        case nlt: False
        then have nin: "\<not> in_interval ops segs idx t" using Some by (simp add: in_interval_def)
        show ?thesis using Some nlt False ext[OF nin] by simp
      qed
    qed
  qed
qed


lemma select_segment_index_first:
  assumes "segs \<noteq> []" and "t < start (segs ! 0)"
  shows "select_segment_index ops segs t = Some 0"
proof -
  obtain s rest where segs: "segs = s # rest" using assms(1) by (cases segs) auto
  then show ?thesis using assms(2) by (simp add: select_segment_index_def)
qed

lemma select_segment_index_char:
  assumes "segs \<noteq> []" and "start (segs ! 0) \<le> t"
  shows "(\<exists>i < length segs. select_segment_index ops segs t = Some i \<and> in_interval ops segs i t \<and>
             (\<forall>j < i. \<not> in_interval ops segs j t)) \<or>
         (select_segment_index ops segs t = Some (length segs - 1) \<and>
             (\<forall>j < length segs. \<not> in_interval ops segs j t))"
proof -
  note c = select_loop_char[of segs "[]" segs 0 ops t, simplified]
  show ?thesis
  proof (cases "select_loop ops segs t 0 segs")
    case None
    then show ?thesis using c assms by (simp add: select_segment_index_def)
  next
    case (Some i)
    then have "i < length segs" "in_interval ops segs i t" "\<forall>j < i. \<not> in_interval ops segs j t"
      using c assms by auto
    then show ?thesis using Some assms by (auto simp: select_segment_index_def)
  qed
qed

lemma select_segment_index_in_range:
  assumes "segs \<noteq> []"
  shows "\<exists>i < length segs. select_segment_index ops segs t = Some i"
proof (cases "t < start (segs ! 0)")
  case True
  then show ?thesis using select_segment_index_first[OF assms True] assms by auto
next
  case False
  then have le: "start (segs ! 0) \<le> t" by simp
  have "length segs - 1 < length segs" using assms by (cases segs) auto
  then show ?thesis using select_segment_index_char[OF assms le] by blast
qed

lemma select_segment_index_least:
  assumes "segs \<noteq> []" and "start (segs ! 0) \<le> t" and "k < length segs"
    and "in_interval ops segs k t" and "\<forall>j < k. \<not> in_interval ops segs j t"
  shows "select_segment_index ops segs t = Some k"
proof -
  from select_segment_index_char[OF assms(1,2)] assms(3,4)
  obtain i where i: "i < length segs" "select_segment_index ops segs t = Some i"
    "in_interval ops segs i t" "\<forall>j < i. \<not> in_interval ops segs j t" by auto
  have "i = k" using i(3,4) assms(4,5) by (meson linorder_neqE_nat)
  then show ?thesis using i(2) by simp
qed

lemma select_segment_index_none_contains:
  assumes "segs \<noteq> []" and "start (segs ! 0) \<le> t" and "\<forall>j < length segs. \<not> in_interval ops segs j t"
  shows "select_segment_index ops segs t = Some (length segs - 1)"
  using select_segment_index_char[OF assms(1,2)] assms(3) by auto


subsection \<open>Loaded timelines\<close>

lemma entry_segment_loaded:
  "entry_segment ops translate entry = Some s \<Longrightarrow> loaded_segment ops s"
  by (auto simp: entry_segment_def loaded_segment_def Let_def split_beta split: option.splits)

lemma load_story_led_timeline_props:
  assumes "load_story_led_timeline ops translate doc = Some timeline"
  shows "segments timeline \<noteq> []"
    and "fallback_pattern_id timeline = None"
    and "sorted (map start (segments timeline))"
    and "\<forall>s \<in> set (segments timeline). loaded_segment ops s"
proof -
  from assms obtain entries where doc: "doc = Some entries"
    by (cases doc) (auto simp: load_story_led_timeline_def)
  define segs where "segs = List.map_filter (entry_segment ops translate) entries"
  have ne: "segs \<noteq> []" and tl: "timeline = new_StoryLedTimeline segs None []"
    using assms doc by (auto simp: load_story_led_timeline_def segs_def Let_def split: if_splits)
  have "length (sort_key start segs) = length segs" by simp
  then show "segments timeline \<noteq> []" using ne tl
    by (auto simp: new_StoryLedTimeline_def simp del: length_sort)
  show "fallback_pattern_id timeline = None" using tl by (simp add: new_StoryLedTimeline_def)
  show "sorted (map start (segments timeline))" using tl by (simp add: new_StoryLedTimeline_def)
  have "\<forall>s \<in> set segs. loaded_segment ops s"
    by (auto simp: segs_def List.map_filter_def intro: entry_segment_loaded)
  then show "\<forall>s \<in> set (segments timeline). loaded_segment ops s"
    using tl by (simp add: new_StoryLedTimeline_def)
qed

lemma loaded_segment_end:
  assumes "loaded_segment ops (segs ! k)"
  shows "segment_end ops segs k =
           (case end_value (segs ! k) of
              Some e \<Rightarrow>
                Some (fadd ops (start (segs ! k)) (max 0 (fsub ops e (start (segs ! k)))))
            | None \<Rightarrow> if k + 1 < length segs then Some (start (segs ! (k + 1))) else None)"
  using assms by (auto simp: loaded_segment_def segment_end_def Let_def split: option.splits)

subsection \<open>Frames\<close>

lemma render_frame:
  "pixel_count (snd (render ops create supply clock p)) = pixel_count p"
  "pattern_segments (snd (render ops create supply clock p)) = pattern_segments p"
  "fallback_pattern (snd (render ops create supply clock p)) = fallback_pattern p"
  by (auto simp: render_def Let_def split: option.splits)

lemma render_coherent:
  assumes "coherent create p"
  shows "coherent create (snd (render ops create supply clock p))"
  using assms by (auto simp: render_def Let_def coherent_def split: option.splits)

lemma after_frames_props:
  assumes "coherent create p"
  shows "coherent create (after_frames ops create frames p)"
    and "pixel_count (after_frames ops create frames p) = pixel_count p"
    and "pattern_segments (after_frames ops create frames p) = pattern_segments p"
    and "fallback_pattern (after_frames ops create frames p) = fallback_pattern p"
  using assms unfolding after_frames_def
proof (induction frames arbitrary: p)
  case Nil
  {
    case 1 then show ?case by simp
  next
    case 2 then show ?case by simp
  next
    case 3 then show ?case by simp
  next
    case 4 then show ?case by simp
  }
next
  case (Cons fr frames)
  {
    case 1 then show ?case using Cons.IH(1)[OF render_coherent] by simp
  next
    case 2 then show ?case using Cons.IH(2)[OF render_coherent] by (simp add: render_frame)
  next
    case 3 then show ?case using Cons.IH(3)[OF render_coherent] by (simp add: render_frame)
  next
    case 4 then show ?case using Cons.IH(4)[OF render_coherent] by (simp add: render_frame)
  }
qed

lemma render_selected:
  assumes "coherent create p" and "0 < pixel_count p"
    and "select_segment_index ops (pattern_segments p) (current_time reading) = Some i"
  shows "fst (render ops create reading clock p) =
           (case create (pattern_id (pattern_segments p ! i)) (params (pattern_segments p ! i)) of
              Some pat \<Rightarrow>
                render_for_elapsed pat (pixel_count p)
                  (segment_elapsed ops (pattern_segments p ! i) (current_time reading))
            | None \<Rightarrow> fallback_or_black clock p)"
  using assms
  by (auto simp: render_def Let_def coherent_def segment_elapsed_def fallback_or_black_def
        split: option.splits)

lemma render_no_segments:
  assumes "0 < pixel_count p" and "pattern_segments p = []"
  shows "fst (render ops create supply clock p) = fallback_or_black clock p"
  using assms by (simp add: render_def Let_def select_segment_index_def)

lemma scripted_timeline_pattern_coherent:
  "coherent create (scripted_timeline_pattern create timeline pc)"
  by (simp add: coherent_def scripted_timeline_pattern_def)

subsection \<open>Claims about the timeline\<close>

lemma load_example:
  "load_story_led_timeline exact_ops keep_name (example_doc A B) =
     Some \<lparr>segments = example_segments A B, fallback_pattern_id = None, fallback_params = []\<rparr>"
  by (simp add: load_story_led_timeline_def example_doc_def example_segments_def
        entry_segment_def keep_name_def new_StoryLedTimeline_def Let_def exact_ops_def)

text \<open>
  C6: the document with the two entries loads into two segments of duration 5; the
  loop selects index 0 (pattern \<open>A\<close>) at position 4.999, index 1 (pattern \<open>B\<close>) at 5.0 and
  at 20, and index 0 (pattern \<open>A\<close>) at position -1, which is first clamped to 0. (The
  sums and differences of 0, 5 and 10 are exact in floating point.)
\<close>

theorem C6_two_segment_selection:
  "map_option segments (load_story_led_timeline exact_ops keep_name (example_doc A B)) =
     Some (example_segments A B) \<and>
   select_segment_index exact_ops (example_segments A B)
     (current_time (Supplier_returns (Some (4999 / 1000)))) = Some 0 \<and>
   selected_pattern exact_ops (example_segments A B)
     (current_time (Supplier_returns (Some (4999 / 1000)))) = Some A \<and>
   select_segment_index exact_ops (example_segments A B)
     (current_time (Supplier_returns (Some 5))) = Some 1 \<and>
   selected_pattern exact_ops (example_segments A B)
     (current_time (Supplier_returns (Some 5))) = Some B \<and>
   select_segment_index exact_ops (example_segments A B)
     (current_time (Supplier_returns (Some 20))) = Some 1 \<and>
   selected_pattern exact_ops (example_segments A B)
     (current_time (Supplier_returns (Some 20))) = Some B \<and>
   current_time (Supplier_returns (Some (- 1))) = 0 \<and>
   select_segment_index exact_ops (example_segments A B)
     (current_time (Supplier_returns (Some (- 1)))) = Some 0 \<and>
   selected_pattern exact_ops (example_segments A B)
     (current_time (Supplier_returns (Some (- 1)))) = Some A"
proof -
  have "map_option segments (load_story_led_timeline exact_ops keep_name (example_doc A B)) =
          Some (example_segments A B)"
    by (simp add: load_example)
  then show ?thesis
    by (simp add: selected_pattern_def select_segment_index_def
          example_segments_def segment_end_def exact_ops_def)
qed

text \<open>
  C7 (as the code has it): for a loaded timeline, which always has a segment and never a
  fallback pattern, on a strip with pixels, whatever frames were rendered before, every
  frame is the frame of one segment \<open>i\<close> of the timeline: its pattern rendered at the time
  elapsed since its start, capped by its duration, or all pixels black when its pattern
  cannot be built. A segment with an explicit end ends at its start plus its duration,
  the duration being the difference between the end and the start (not below zero),
  both as floating-point arithmetic computes them; without an explicit end it ends at
  the next segment's start, and the final segment has no end. A position before the
  first start selects the first segment; otherwise the first segment, in start order,
  whose interval contains the position is selected; a position at or after the last
  segment's start that no interval contains selects the last segment.
\<close>

theorem C7_timeline_render:
  assumes "load_story_led_timeline ops translate doc = Some timeline" and "0 < pc"
  shows "sorted (map start (segments timeline)) \<and>
         fallback_pattern
           (after_frames ops create earlier (scripted_timeline_pattern create timeline pc)) = None \<and>
         (\<forall>k < length (segments timeline).
            segment_end ops (segments timeline) k =
              (case end_value (segments timeline ! k) of
                 Some e \<Rightarrow>
                   Some (fadd ops (start (segments timeline ! k))
                           (max 0 (fsub ops e (start (segments timeline ! k)))))
               | None \<Rightarrow> if k + 1 < length (segments timeline)
                         then Some (start (segments timeline ! (k + 1))) else None)) \<and>
         (\<exists>i < length (segments timeline).
            select_segment_index ops (segments timeline) (current_time supply) = Some i \<and>
            fst (render ops create supply clock
                   (after_frames ops create earlier
                      (scripted_timeline_pattern create timeline pc))) =
              segment_frame ops create (segments timeline ! i) pc (current_time supply) \<and>
            (current_time supply < start (segments timeline ! 0) \<longrightarrow> i = 0) \<and>
            (\<forall>k < length (segments timeline).
               in_interval ops (segments timeline) k (current_time supply) \<and>
               (\<forall>j < k. \<not> in_interval ops (segments timeline) j (current_time supply))
               \<longrightarrow> i = k) \<and>
            (start (last (segments timeline)) \<le> current_time supply \<and>
             (\<forall>j < length (segments timeline).
                \<not> in_interval ops (segments timeline) j (current_time supply))
             \<longrightarrow> i = length (segments timeline) - 1))"
proof -
  let ?segs = "segments timeline"
  let ?t = "current_time supply"
  let ?fresh = "scripted_timeline_pattern create timeline pc"
  let ?p = "after_frames ops create earlier ?fresh"
  note props = load_story_led_timeline_props[OF assms(1)]
  note after = after_frames_props[OF scripted_timeline_pattern_coherent[of create timeline pc],
      where ops = ops and frames = earlier]
  have p0: "pixel_count ?fresh = pc" "pattern_segments ?fresh = ?segs" "fallback_pattern ?fresh = None"
    using assms(2) props(2) by (simp_all add: scripted_timeline_pattern_def)
  have p: "coherent create ?p" "pixel_count ?p = pc" "pattern_segments ?p = ?segs"
    "fallback_pattern ?p = None"
    using after p0 by simp_all
  have ends: "\<forall>k < length ?segs.
            segment_end ops ?segs k =
              (case end_value (?segs ! k) of
                 Some e \<Rightarrow> Some (fadd ops (start (?segs ! k)) (max 0 (fsub ops e (start (?segs ! k)))))
               | None \<Rightarrow> if k + 1 < length ?segs then Some (start (?segs ! (k + 1))) else None)"
  proof (intro allI impI)
    fix k assume "k < length ?segs"
    then have "loaded_segment ops (?segs ! k)" using props(4) by simp
    then show "segment_end ops ?segs k =
              (case end_value (?segs ! k) of
                 Some e \<Rightarrow> Some (fadd ops (start (?segs ! k)) (max 0 (fsub ops e (start (?segs ! k)))))
               | None \<Rightarrow> if k + 1 < length ?segs then Some (start (?segs ! (k + 1))) else None)"
      by (rule loaded_segment_end)
  qed
  from select_segment_index_in_range[OF props(1), of ops ?t]
  obtain i where i: "i < length ?segs" "select_segment_index ops ?segs ?t = Some i" by blast
  have frame: "fst (render ops create supply clock ?p) = segment_frame ops create (?segs ! i) pc ?t"
    using render_selected[OF p(1), where ops = ops and i = i and clock = clock and reading = "supply"] assms(2) i(2) p(2,3,4)
    by (simp add: segment_frame_def fallback_or_black_def split: option.splits)
  have first: "?t < start (?segs ! 0) \<longrightarrow> i = 0"
    using select_segment_index_first[OF props(1), of ?t ops] i(2) by auto
  have least: "\<forall>k < length ?segs.
               in_interval ops ?segs k ?t \<and> (\<forall>j < k. \<not> in_interval ops ?segs j ?t) \<longrightarrow> i = k"
  proof (intro allI impI)
    fix k assume k: "k < length ?segs"
      and h: "in_interval ops ?segs k ?t \<and> (\<forall>j < k. \<not> in_interval ops ?segs j ?t)"
    have "start (?segs ! 0) \<le> start (?segs ! k)"
      using props(3) k by (simp add: sorted_iff_nth_mono)
    also have "\<dots> \<le> ?t" using h by (simp add: in_interval_def)
    finally have le: "start (?segs ! 0) \<le> ?t" .
    from select_segment_index_least[OF props(1) le k] h i(2) show "i = k" by simp
  qed
  have past: "start (last ?segs) \<le> ?t \<and> (\<forall>j < length ?segs. \<not> in_interval ops ?segs j ?t)
             \<longrightarrow> i = length ?segs - 1"
  proof
    assume h: "start (last ?segs) \<le> ?t \<and> (\<forall>j < length ?segs. \<not> in_interval ops ?segs j ?t)"
    have "start (?segs ! 0) \<le> start (?segs ! (length ?segs - 1))"
      using props(1,3) by (simp add: sorted_iff_nth_mono)
    also have "\<dots> = start (last ?segs)" using props(1) by (simp add: last_conv_nth)
    finally have le: "start (?segs ! 0) \<le> ?t" using h by simp
    from select_segment_index_none_contains[OF props(1) le] h i(2) show "i = length ?segs - 1"
      by simp
  qed
  show ?thesis using p(4) props(3) ends i frame first least past by blast
qed

subsection \<open>The documents of flashes\<close>

lemma exact_ops_fields:
  "fadd exact_ops a b = a + b" "fsub exact_ops a b = a - b"
  "fmul exact_ops a b = a * b" "fdiv exact_ops a b = a / b"
  by (simp_all add: exact_ops_def)

lemma clamp_values: "clamp 255 = 255" "clamp (255 / 2) = 128" "clamp 0 = 0"
  by (simp_all add: clamp_def py_round_def)

lemma load_flash_doc:
  "load_story_led_timeline exact_ops (translate_pattern no_others) flash_doc = Some flash_timeline"
  by (simp add: load_story_led_timeline_def flash_doc_def flash_timeline_def entry_segment_def
        translate_pattern_def translate_flashing_def lower_char_def dict_lookup_def
        new_StoryLedTimeline_def Let_def exact_ops_fields)

lemma load_late_doc:
  "load_story_led_timeline exact_ops (translate_pattern no_others) late_doc = Some late_timeline"
  by (simp add: load_story_led_timeline_def late_doc_def late_timeline_def entry_segment_def
        translate_pattern_def translate_flashing_def lower_char_def dict_lookup_def
        new_StoryLedTimeline_def Let_def exact_ops_fields)

lemma create_flash:
  "create_pattern exact_ops no_builders ''flash''
     [(''color'', Ints [255, 255, 255]), (''duration'', Num d)] =
   Some (FlashPattern exact_ops (255, 255, 255) d)"
  by (simp add: create_pattern_def build_flash_def dict_lookup_def normalize_color_def
        clamp_values Let_def)

lemma flash_frames:
  "render_for_elapsed (FlashPattern exact_ops (255, 255, 255) (1 / 2)) 30 0 =
     replicate 30 (255, 255, 255)"
  "render_for_elapsed (FlashPattern exact_ops (255, 255, 255) 2) 30 0 =
     replicate 30 (255, 255, 255)"
  "render_for_elapsed (FlashPattern exact_ops (255, 255, 255) 5) 30 (5 / 2) =
     replicate 30 (128, 128, 128)"
  "render_for_elapsed (FlashPattern exact_ops (255, 255, 255) 5) 30 5 =
     replicate 30 (0, 0, 0)"
  by (simp_all add: render_for_elapsed_def FlashPattern_def exact_ops_fields clamp_values Let_def)

lemma flash_intervals:
  "in_interval exact_ops (segments flash_timeline) 0 (5 / 2)"
  "\<not> in_interval exact_ops (segments flash_timeline) 0 20"
  "\<not> in_interval exact_ops (segments flash_timeline) 1 20"
  "length (segments flash_timeline) = 2"
  "start (last (segments flash_timeline)) = 5"
  by (simp_all add: flash_timeline_def in_interval_def segment_end_def exact_ops_fields)

theorem C7_timeline_render_witness:
  "load_story_led_timeline exact_ops (translate_pattern no_others) flash_doc = Some flash_timeline \<and>
   fst (render exact_ops (create_pattern exact_ops no_builders) (Supplier_returns (Some 20)) 0
          (after_frames exact_ops (create_pattern exact_ops no_builders) []
             (scripted_timeline_pattern (create_pattern exact_ops no_builders) flash_timeline 30)))
     = replicate 30 (255, 255, 255) \<and>
   fst (render exact_ops (create_pattern exact_ops no_builders) (Supplier_returns (Some (5 / 2))) 0
          (after_frames exact_ops (create_pattern exact_ops no_builders)
             [(Supplier_returns (Some 20), 0)]
             (scripted_timeline_pattern (create_pattern exact_ops no_builders) flash_timeline 30)))
     = replicate 30 (128, 128, 128) \<and>
   load_story_led_timeline exact_ops (translate_pattern no_others) late_doc = Some late_timeline \<and>
   fst (render exact_ops (create_pattern exact_ops no_builders) (Supplier_returns (Some 1)) 0
          (after_frames exact_ops (create_pattern exact_ops no_builders) []
             (scripted_timeline_pattern (create_pattern exact_ops no_builders) late_timeline 30)))
     = replicate 30 (255, 255, 255)"
proof -
  let ?create = "create_pattern exact_ops no_builders"
  let ?tr = "translate_pattern no_others"
  have pc: "(0::int) < 30" by simp
  have seg0: "segments flash_timeline ! 0 =
      \<lparr>start = 0, pattern_id = ''flash'', duration = Some 5,
       params = [(''color'', Ints [255, 255, 255]), (''duration'', Num 5)],
       end_value = Some 5\<rparr>"
    and seg1: "segments flash_timeline ! Suc 0 =
      \<lparr>start = 5, pattern_id = ''flash'', duration = Some 0,
       params = [(''color'', Ints [255, 255, 255]), (''duration'', Num (1 / 2))],
       end_value = Some 5\<rparr>"
    by (simp_all add: flash_timeline_def)
  have a: "fst (render exact_ops ?create (Supplier_returns (Some 20)) 0
          (after_frames exact_ops ?create []
             (scripted_timeline_pattern ?create flash_timeline 30)))
     = replicate 30 (255, 255, 255)"
  proof -
    from C7_timeline_render [OF load_flash_doc pc, of ?create "[]" "Supplier_returns (Some 20)" 0]
    obtain i where i: "i < length (segments flash_timeline)"
      "fst (render exact_ops ?create (Supplier_returns (Some 20)) 0
             (after_frames exact_ops ?create []
                (scripted_timeline_pattern ?create flash_timeline 30))) =
         segment_frame exact_ops ?create (segments flash_timeline ! i) 30
           (current_time (Supplier_returns (Some 20)))"
      "start (last (segments flash_timeline)) \<le> current_time (Supplier_returns (Some 20)) \<and>
       (\<forall>j < length (segments flash_timeline).
          \<not> in_interval exact_ops (segments flash_timeline) j
               (current_time (Supplier_returns (Some 20))))
       \<longrightarrow> i = length (segments flash_timeline) - 1"
      by blast
    have "\<forall>j < length (segments flash_timeline).
            \<not> in_interval exact_ops (segments flash_timeline) j 20"
      using flash_intervals(2,3) by (auto simp: flash_intervals(4) less_Suc_eq numeral_2_eq_2)
    then have "i = 1" using i(3) by (simp add: flash_intervals)
    then show ?thesis using i(2)
      by (simp add: seg1 segment_frame_def create_flash segment_elapsed_def flash_frames
            exact_ops_fields)
  qed
  have b: "fst (render exact_ops ?create (Supplier_returns (Some (5 / 2))) 0
          (after_frames exact_ops ?create [(Supplier_returns (Some 20), 0)]
             (scripted_timeline_pattern ?create flash_timeline 30)))
     = replicate 30 (128, 128, 128)"
  proof -
    from C7_timeline_render [OF load_flash_doc pc, of ?create
        "[(Supplier_returns (Some 20), 0)]" "Supplier_returns (Some (5 / 2))" 0]
    obtain i where i: "i < length (segments flash_timeline)"
      "fst (render exact_ops ?create (Supplier_returns (Some (5 / 2))) 0
             (after_frames exact_ops ?create [(Supplier_returns (Some 20), 0)]
                (scripted_timeline_pattern ?create flash_timeline 30))) =
         segment_frame exact_ops ?create (segments flash_timeline ! i) 30
           (current_time (Supplier_returns (Some (5 / 2))))"
      "\<forall>k < length (segments flash_timeline).
         in_interval exact_ops (segments flash_timeline) k
           (current_time (Supplier_returns (Some (5 / 2)))) \<and>
         (\<forall>j < k. \<not> in_interval exact_ops (segments flash_timeline) j
                     (current_time (Supplier_returns (Some (5 / 2)))))
         \<longrightarrow> i = k"
      by blast
    have "i = 0" using i(3) flash_intervals(1,4) by auto
    then show ?thesis using i(2)
      by (simp add: seg0 segment_frame_def create_flash segment_elapsed_def flash_frames
            exact_ops_fields)
  qed
  have c: "fst (render exact_ops ?create (Supplier_returns (Some 1)) 0
          (after_frames exact_ops ?create []
             (scripted_timeline_pattern ?create late_timeline 30)))
     = replicate 30 (255, 255, 255)"
  proof -
    from C7_timeline_render [OF load_late_doc pc, of ?create "[]" "Supplier_returns (Some 1)" 0]
    obtain i where i: "i < length (segments late_timeline)"
      "fst (render exact_ops ?create (Supplier_returns (Some 1)) 0
             (after_frames exact_ops ?create []
                (scripted_timeline_pattern ?create late_timeline 30))) =
         segment_frame exact_ops ?create (segments late_timeline ! i) 30
           (current_time (Supplier_returns (Some 1)))"
      "current_time (Supplier_returns (Some 1)) < start (segments late_timeline ! 0) \<longrightarrow> i = 0"
      by blast
    have "i = 0" using i(3) by (simp add: late_timeline_def)
    then show ?thesis using i(2)
      by (simp add: late_timeline_def segment_frame_def create_flash segment_elapsed_def
            flash_frames exact_ops_fields)
  qed
  show ?thesis using load_flash_doc load_late_doc a b c by simp
qed

text \<open>
  The claim C7 as first stated fails past the end of the timeline. The document of two
  flashes loads into a timeline without fallback; at position 20 no interval of its
  segments contains the position, yet the frame is not black: it is the last segment's
  flash at its first instant, thirty white pixels. (Every sum, difference, product and
  quotient computed on the way is exact in floating point.)
\<close>

theorem C7_past_end_counterexample:
  "load_story_led_timeline exact_ops (translate_pattern no_others) flash_doc = Some flash_timeline \<and>
   length (segments flash_timeline) = 2 \<and>
   fallback_pattern_id flash_timeline = None \<and>
   current_time (Supplier_returns (Some 20)) = 20 \<and>
   \<not> in_interval exact_ops (segments flash_timeline) 0 20 \<and>
   \<not> in_interval exact_ops (segments flash_timeline) 1 20 \<and>
   fst (render exact_ops (create_pattern exact_ops no_builders) (Supplier_returns (Some 20)) 0
          (scripted_timeline_pattern (create_pattern exact_ops no_builders) flash_timeline 30))
     = replicate 30 (255, 255, 255) \<and>
   replicate 30 (255, 255, 255) \<noteq> replicate 30 (0, 0, 0 :: int)"
proof -
  have sel: "select_segment_index exact_ops (segments flash_timeline) 20 = Some 1"
    by (simp add: flash_timeline_def select_segment_index_def segment_end_def exact_ops_fields)
  have "fst (render exact_ops (create_pattern exact_ops no_builders) (Supplier_returns (Some 20)) 0
          (scripted_timeline_pattern (create_pattern exact_ops no_builders) flash_timeline 30))
     = replicate 30 (255, 255, 255)"
    using sel flash_frames(1)
    by (simp add: render_def scripted_timeline_pattern_def Let_def flash_timeline_def
          create_flash exact_ops_fields)
  then show ?thesis
    using load_flash_doc flash_intervals by (simp add: flash_timeline_def)
qed

subsection \<open>Claims about the group-partitioned pattern\<close>

text \<open>
  C8: with relative lengths 6, 8, 8, 8 (the default of the pattern) and 30 pixels, the
  computed ranges are 0 to 6, 6 to 14, 14 to 22 and 22 to 30: listed one after the other
  they cover the pixels 0 to 29 each once and in order, their lengths are 6, 8, 8, 8, and
  the last range ends at the pixel count.
\<close>

theorem C8_group_ranges_partition:
  "build_group_cycle None = build_group_cycle (Some [6, 8, 8, 8]) \<and>
   computed_groups [6, 8, 8, 8] 30 = Some [(0, 6), (6, 14), (14, 22), (22, 30)] \<and>
   map_option covered_pixels (computed_groups [6, 8, 8, 8] 30) = Some [0..29] \<and>
   map_option (map (\<lambda>(a, b). b - a)) (computed_groups [6, 8, 8, 8] 30) = Some [6, 8, 8, 8] \<and>
   map_option (\<lambda>gs. snd (last gs)) (computed_groups [6, 8, 8, 8] 30) = Some 30 \<and>
   reset 30 (build_group_cycle (Some [6, 8, 8, 8])) =
     Inr \<lparr>base_lengths = [6, 8, 8, 8], gc_pixel_count = 30,
          groups = [(0, 6), (6, 14), (14, 22), (22, 30)],
          group_overrides = [None, None, None, None],
          pixel_group_index = replicate 6 0 @ replicate 8 1 @ replicate 8 2 @ replicate 8 3\<rparr>"
  by code_simp

text \<open>
  Whatever the lengths and the scale, the last range computed by the loop ends at the
  pixel count: it takes what the rounding of the others left.
\<close>

lemma group_indices_last:
  "ls \<noteq> [] \<Longrightarrow> rg = int (length ls) \<Longrightarrow> cursor \<le> pc \<Longrightarrow> rp = pc - cursor \<Longrightarrow>
   snd (last (group_indices pc scale ls cursor rp rg)) = pc"
proof (induction ls arbitrary: cursor rp rg)
  case Nil
  then show ?case by simp
next
  case (Cons l rest)
  show ?case
  proof (cases "rest = []")
    case True
    then show ?thesis using Cons.prems by (simp add: Let_def)
  next
    case False
    define stop where "stop = min pc (cursor + (min (max 1 (py_round (of_int l * scale)))
                                  (rp - (rg - 1))))"
    have rg': "rg - 1 = int (length rest)" "rg - 1 \<noteq> 0" using Cons.prems False by auto
    have stop_le: "stop \<le> pc" by (simp add: stop_def)
    have step: "group_indices pc scale (l # rest) cursor rp rg =
                  (cursor, stop) # group_indices pc scale rest stop (max 0 (pc - stop)) (rg - 1)"
      using rg'(2) by (simp add: Let_def stop_def)
    have ne: "group_indices pc scale rest stop (max 0 (pc - stop)) (rg - 1) \<noteq> []"
      using False by (cases rest) (auto simp: Let_def)
    have "snd (last (group_indices pc scale rest stop (max 0 (pc - stop)) (rg - 1))) = pc"
      using Cons.IH[OF False rg'(1) stop_le] stop_le by (simp add: max_def)
    then show ?thesis unfolding step using ne by simp
  qed
qed


end
